theory Spec2Isabelle
  imports Main "HOL-Library.Sublist"
begin

section \<open>JavaScript strings\<close>

text \<open>
  A JavaScript string is a sequence of UTF-16 code units; \<open>length\<close>, \<open>includes\<close>,
  \<open>trim\<close> and the regular expressions of \<open>route.ts\<close> all work on code units. ASCII
  literals are written through \<open>ascii\<close>; the Greek literals of the source are written
  as code-unit lists, with a transliteration beside them.
\<close>

type_synonym jsstring = "nat list"

definition ascii :: "string \<Rightarrow> jsstring" where
  "ascii s = map of_char s"

text \<open>
  \<open>String.prototype.trim\<close> removes the WhiteSpace and LineTerminator code units of
  ECMAScript from both ends.
\<close>

definition is_whitespace :: "nat \<Rightarrow> bool" where
  "is_whitespace c \<longleftrightarrow>
     c = 0x09 \<or> c = 0x0A \<or> c = 0x0B \<or> c = 0x0C \<or> c = 0x0D \<or> c = 0x20 \<or> c = 0xA0
     \<or> c = 0x1680 \<or> (0x2000 \<le> c \<and> c \<le> 0x200A) \<or> c = 0x2028 \<or> c = 0x2029
     \<or> c = 0x202F \<or> c = 0x205F \<or> c = 0x3000 \<or> c = 0xFEFF"

definition trim :: "jsstring \<Rightarrow> jsstring" where
  "trim s = rev (dropWhile is_whitespace (rev (dropWhile is_whitespace s)))"

text \<open>\<open>s.includes(n)\<close>: \<open>n\<close> occurs in \<open>s\<close> as a contiguous run of code units.\<close>

fun includes_str :: "jsstring \<Rightarrow> jsstring \<Rightarrow> bool" where
  "includes_str [] n = (n = [])"
| "includes_str (c # cs) n = (prefix n (c # cs) \<or> includes_str cs n)"


section \<open>Carrier responses and the runtime\<close>

record TrackingEvent =
  ev_date :: jsstring
  ev_time :: jsstring
  ev_place :: jsstring
  ev_status :: jsstring

text \<open>
  What a \<open>catch\<close> clause can receive: an instance of \<open>Error\<close> with its message, or any
  other thrown value.
\<close>

datatype js_thrown = ErrorObj jsstring | NonError

text \<open>
  The bodies the two carriers answer with, in the shape the fetchers read them. A
  member the code reads through \<open>?.\<close> or \<open>||\<close> is optional (\<open>None\<close>: absent, null or
  undefined). The numeric \<open>status\<close> members are only ever compared with \<open>1\<close>.
\<close>

record elta_shipment =
  s_status :: "int option"
  s_result :: "TrackingEvent list option"

record elta_data =
  d_status :: "int option"
  d_result :: "(jsstring \<times> elta_shipment) list option"

record boxnow_event =
  e_createTime :: "jsstring option"
  e_locationDisplayName :: "jsstring option"
  e_type :: "jsstring option"

record boxnow_parcel =
  p_events :: "boxnow_event list option"
  p_state :: "jsstring option"

record boxnow_data =
  b_data :: "boxnow_parcel list option"

text \<open>
  The network, the JSON parser and the case conversions of strings are outside the
  program. A fetcher runs in a world \<open>'w\<close> that only the network calls can change:
  \<^item> \<open>lower_other\<close> and \<open>upper_other\<close> are \<open>String.prototype.toLowerCase\<close> and
    \<open>toUpperCase\<close> on the strings that leave the alphabet modelled below;
  \<^item> \<open>fetch_text tn w\<close> is \<open>await fetch(...)\<close> with the ELTA request for \<open>tn\<close>, followed by
    \<open>await response.text()\<close>: the body, or the value thrown;
  \<^item> \<open>JSON_parse\<close> is \<open>JSON.parse\<close> read at the shape above; a text that does not parse,
    or whose value makes a member read of the fetcher throw, is a thrown value;
  \<^item> \<open>fetch_json tn w\<close> is \<open>await fetch(...)\<close> with the Box Now request for \<open>tn\<close>,
    followed by \<open>await response.json()\<close>.
\<close>

record 'w runtime =
  lower_other :: "jsstring \<Rightarrow> jsstring"
  upper_other :: "jsstring \<Rightarrow> jsstring"
  fetch_text :: "jsstring \<Rightarrow> 'w \<Rightarrow> (js_thrown + jsstring) \<times> 'w"
  JSON_parse :: "jsstring \<Rightarrow> js_thrown + elta_data"
  fetch_json :: "jsstring \<Rightarrow> 'w \<Rightarrow> (js_thrown + boxnow_data) \<times> 'w"

definition or_else :: "jsstring option \<Rightarrow> jsstring \<Rightarrow> jsstring" where
  \<comment> \<open>\<open>x || d\<close> on an optional string: the default replaces an absent or empty one\<close>
  "or_else x d = (case x of None \<Rightarrow> d | Some v \<Rightarrow> if v = [] then d else v)"


section \<open>Case conversion\<close>

text \<open>
  \<open>String.prototype.toLowerCase\<close> and \<open>toUpperCase\<close> follow the Unicode case mappings.
  They are written out on the alphabet of the status table and of the tracking-number
  formats: Basic Latin and the letters of the Greek block. On a string of that alphabet
  lower-casing maps each code unit by itself, except capital sigma, which becomes the
  final sigma when it ends a word (it follows a cased letter, with only case-ignorable
  code units between, and no cased letter follows it in the same way) and the medial
  sigma otherwise. Upper-casing maps each code unit by itself; the two Greek letters
  whose upper case is more than one code unit (iota and upsilon with dialytika and
  tonos) are outside its alphabet. A string with a code unit outside the alphabet is
  converted by the runtime (\<open>lower_other\<close>, \<open>upper_other\<close>), about which nothing is
  assumed: such a conversion may change the length of the string.
\<close>

definition greek_letter :: "nat \<Rightarrow> bool" where
  "greek_letter c \<longleftrightarrow>
     c = 0x386 \<or> (0x388 \<le> c \<and> c \<le> 0x38A) \<or> c = 0x38C \<or> (0x38E \<le> c \<and> c \<le> 0x3A1)
     \<or> (0x3A3 \<le> c \<and> c \<le> 0x3CE)"

definition in_alphabet :: "nat \<Rightarrow> bool" where
  "in_alphabet c \<longleftrightarrow> c < 0x80 \<or> greek_letter c"

definition cased :: "nat \<Rightarrow> bool" where
  "cased c \<longleftrightarrow> (0x41 \<le> c \<and> c \<le> 0x5A) \<or> (0x61 \<le> c \<and> c \<le> 0x7A) \<or> greek_letter c"

definition case_ignorable :: "nat \<Rightarrow> bool" where
  \<comment> \<open>within the alphabet: apostrophe, full stop, colon, circumflex, grave accent\<close>
  "case_ignorable c \<longleftrightarrow> c = 0x27 \<or> c = 0x2E \<or> c = 0x3A \<or> c = 0x5E \<or> c = 0x60"

definition lower_unit :: "nat \<Rightarrow> nat" where
  "lower_unit c =
     (if 0x41 \<le> c \<and> c \<le> 0x5A then c + 32
      else if 0x391 \<le> c \<and> c \<le> 0x3AB \<and> c \<noteq> 0x3A2 then c + 32
      else if c = 0x386 then 0x3AC
      else if 0x388 \<le> c \<and> c \<le> 0x38A then c + 37
      else if c = 0x38C then 0x3CC
      else if c = 0x38E \<or> c = 0x38F then c + 63
      else c)"

definition upper_unit :: "nat \<Rightarrow> nat" where
  "upper_unit c =
     (if 0x61 \<le> c \<and> c \<le> 0x7A then c - 32
      else if 0x3B1 \<le> c \<and> c \<le> 0x3CB \<and> c \<noteq> 0x3C2 then c - 32
      else if c = 0x3C2 then 0x3A3
      else if c = 0x3AC then 0x386
      else if 0x3AD \<le> c \<and> c \<le> 0x3AF then c - 37
      else if c = 0x3CC then 0x38C
      else if c = 0x3CD \<or> c = 0x3CE then c - 63
      else c)"

definition followed_by_cased :: "jsstring \<Rightarrow> bool" where
  "followed_by_cased cs =
     (case dropWhile case_ignorable cs of [] \<Rightarrow> False | d # _ \<Rightarrow> cased d)"

text \<open>
  \<open>lower_from after_cased s\<close> lower-cases \<open>s\<close>; \<open>after_cased\<close> tells whether the code
  units before \<open>s\<close> end in a cased letter followed by case-ignorable ones only.
\<close>

fun lower_from :: "bool \<Rightarrow> jsstring \<Rightarrow> jsstring" where
  "lower_from after_cased [] = []"
| "lower_from after_cased (c # cs) =
     (if c = 0x3A3
      then (if after_cased \<and> \<not> followed_by_cased cs then 0x3C2 else 0x3C3)
      else lower_unit c)
     # lower_from (if case_ignorable c then after_cased else cased c) cs"

definition toLowerCase :: "'w runtime \<Rightarrow> jsstring \<Rightarrow> jsstring" where
  "toLowerCase E s =
     (if list_all in_alphabet s then lower_from False s else lower_other E s)"

definition toUpperCase :: "'w runtime \<Rightarrow> jsstring \<Rightarrow> jsstring" where
  "toUpperCase E s =
     (if list_all (\<lambda>c. in_alphabet c \<and> c \<noteq> 0x390 \<and> c \<noteq> 0x3B0) s then map upper_unit s
      else upper_other E s)"


section \<open>Status translation and classification\<close>

text \<open>
  \<open>STATUS_TRANSLATIONS\<close>, in declaration order (the order \<open>Object.entries\<close> yields for
  string keys). The Greek keys, transliterated:
  1 "Apostoli paradothike", 2 "Apostoli paradothike se",
  3 "Apostoli vrisketai se stadio metaforas", 4 "Dimiourgia SY.DE.TA.",
  5 "I APOSTOLI PARADOTHIKE".
\<close>

definition STATUS_TRANSLATIONS :: "(jsstring \<times> jsstring) list" where
  "STATUS_TRANSLATIONS =
    [([0x391, 0x3C0, 0x3BF, 0x3C3, 0x3C4, 0x3BF, 0x3BB, 0x3AE, 0x20,
       0x3C0, 0x3B1, 0x3C1, 0x3B1, 0x3B4, 0x3CC, 0x3B8, 0x3B7, 0x3BA, 0x3B5],
      ascii ''Delivered''),
     ([0x391, 0x3C0, 0x3BF, 0x3C3, 0x3C4, 0x3BF, 0x3BB, 0x3AE, 0x20,
       0x3C0, 0x3B1, 0x3C1, 0x3B1, 0x3B4, 0x3CC, 0x3B8, 0x3B7, 0x3BA, 0x3B5,
       0x20, 0x3C3, 0x3B5],
      ascii ''Delivered to''),
     ([0x391, 0x3C0, 0x3BF, 0x3C3, 0x3C4, 0x3BF, 0x3BB, 0x3AE, 0x20,
       0x3B2, 0x3C1, 0x3AF, 0x3C3, 0x3BA, 0x3B5, 0x3C4, 0x3B1, 0x3B9, 0x20,
       0x3C3, 0x3B5, 0x20, 0x3C3, 0x3C4, 0x3AC, 0x3B4, 0x3B9, 0x3BF, 0x20,
       0x3BC, 0x3B5, 0x3C4, 0x3B1, 0x3C6, 0x3BF, 0x3C1, 0x3AC, 0x3C2],
      ascii ''In Transit''),
     ([0x394, 0x3B7, 0x3BC, 0x3B9, 0x3BF, 0x3C5, 0x3C1, 0x3B3, 0x3AF, 0x3B1, 0x20,
       0x3A3, 0x3A5, 0x2E, 0x394, 0x395, 0x2E, 0x3A4, 0x391, 0x2E],
      ascii ''Shipment Created''),
     ([0x397, 0x20, 0x391, 0x3A0, 0x39F, 0x3A3, 0x3A4, 0x39F, 0x39B, 0x397, 0x20,
       0x3A0, 0x391, 0x3A1, 0x391, 0x394, 0x39F, 0x398, 0x397, 0x39A, 0x395],
      ascii ''Delivered''),
     (ascii ''delivered'', ascii ''Delivered''),
     (ascii ''in-depot'', ascii ''In Depot''),
     (ascii ''final-destination'', ascii ''At Destination'')]"

text \<open>The test of one table entry in the loop of \<open>translateStatus\<close>.\<close>

definition entry_matches :: "'w runtime \<Rightarrow> jsstring \<Rightarrow> jsstring \<Rightarrow> bool" where
  "entry_matches E greek statusLower \<longleftrightarrow>
     toLowerCase E greek = statusLower \<or> includes_str statusLower (toLowerCase E greek)"

fun translate_loop ::
  "'w runtime \<Rightarrow> (jsstring \<times> jsstring) list \<Rightarrow> jsstring \<Rightarrow> jsstring \<Rightarrow> jsstring" where
  "translate_loop E [] statusLower status = status"
| "translate_loop E ((greek, english) # rest) statusLower status =
     (if entry_matches E greek statusLower then english
      else translate_loop E rest statusLower status)"

definition translateStatus :: "'w runtime \<Rightarrow> jsstring \<Rightarrow> jsstring" where
  "translateStatus E status =
     translate_loop E STATUS_TRANSLATIONS (toLowerCase E status) status"


text \<open>\<open>getStatusCategory\<close>. The Greek keywords, transliterated: "paradothik", "metaforas",
  "dimiourgia".\<close>

datatype category = delivered | in_transit | created | unknown | error

definition getStatusCategory :: "'w runtime \<Rightarrow> jsstring \<Rightarrow> category" where
  "getStatusCategory E status =
     (let statusLower = toLowerCase E status in
      if includes_str statusLower (ascii ''delivered'')
         \<or> includes_str statusLower [0x3C0, 0x3B1, 0x3C1, 0x3B1, 0x3B4, 0x3CC, 0x3B8, 0x3B7, 0x3BA]
      then delivered
      else if includes_str statusLower (ascii ''transit'')
         \<or> includes_str statusLower [0x3BC, 0x3B5, 0x3C4, 0x3B1, 0x3C6, 0x3BF, 0x3C1, 0x3AC, 0x3C2]
      then in_transit
      else if includes_str statusLower (ascii ''created'')
         \<or> includes_str statusLower [0x3B4, 0x3B7, 0x3BC, 0x3B9, 0x3BF, 0x3C5, 0x3C1, 0x3B3, 0x3AF, 0x3B1]
      then created
      else unknown)"


section \<open>Carrier registry and detection\<close>

text \<open>
  The patterns of \<open>COURIERS\<close> are all of one shape: anchored at both ends, a sequence of
  items, each a character class with a repetition range (a literal is a class repeated
  once). The digit class is \<open>[0-9]\<close> and \<open>[A-Z]\<close> the ASCII range, as in a JavaScript
  pattern without flags. \<open>test\<close> holds when some split of the whole string into runs,
  one per item, fits every item's class and range.
\<close>

datatype cclass = Digit | Upper | Lit nat

fun in_class :: "cclass \<Rightarrow> nat \<Rightarrow> bool" where
  "in_class Digit c = (0x30 \<le> c \<and> c \<le> 0x39)"
| "in_class Upper c = (0x41 \<le> c \<and> c \<le> 0x5A)"
| "in_class (Lit l) c = (c = l)"

type_synonym pattern = "(cclass \<times> nat \<times> nat) list"

fun test :: "pattern \<Rightarrow> jsstring \<Rightarrow> bool" where
  "test [] s = (s = [])"
| "test ((cl, lo, hi) # items) s =
     list_ex (\<lambda>k. k \<le> length s \<and> list_all (in_class cl) (take k s) \<and> test items (drop k s))
       [lo..<Suc hi]"

definition lit :: "string \<Rightarrow> pattern" where
  "lit s = map (\<lambda>c. (Lit (of_char c), 1, 1)) s"

record courier_config =
  name :: jsstring
  apiUrl :: jsstring
  patterns :: "pattern list"
  color :: jsstring

definition elta :: courier_config where
  "elta =
     \<lparr>name = ascii ''ELTA Courier'',
      apiUrl = ascii ''https://www.elta-courier.gr/track.php'',
      patterns = [lit ''SE'' @ [(Digit, 9, 9)] @ lit ''GR'',
                  lit ''EL'' @ [(Digit, 9, 9)] @ lit ''GR'',
                  [(Upper, 2, 2), (Digit, 9, 9)] @ lit ''GR''],
      color = ascii ''#1e40af''\<rparr>"

definition acs :: courier_config where
  "acs =
     \<lparr>name = ascii ''ACS Courier'',
      apiUrl = ascii ''https://api.acscourier.net/api/parcels/search'',
      patterns = [[(Digit, 10, 10)]],
      color = ascii ''#dc2626''\<rparr>"

definition speedex :: courier_config where
  "speedex =
     \<lparr>name = ascii ''SpeedEx'',
      apiUrl = ascii ''http://www.speedex.gr/speedex/NewTrackAndTrace.aspx'',
      patterns = [lit ''SP'' @ [(Digit, 8, 10)],
                  [(Digit, 12, 12)],
                  [(Digit, 9, 9), (Upper, 2, 2)]],
      color = ascii ''#f59e0b''\<rparr>"

definition box_now :: courier_config where
  "box_now =
     \<lparr>name = ascii ''Box Now'',
      apiUrl = ascii ''https://api-production.boxnow.gr/api/v1/parcels:track'',
      patterns = [lit ''BN'' @ [(Digit, 8, 10)]],
      color = ascii ''#10b981''\<rparr>"

definition courier_center :: courier_config where
  "courier_center =
     \<lparr>name = ascii ''Courier Center'',
      apiUrl = ascii ''https://courier.gr/track/result'',
      patterns = [lit ''CC'' @ [(Digit, 8, 10)]],
      color = ascii ''#8b5cf6''\<rparr>"

definition geniki :: courier_config where
  "geniki =
     \<lparr>name = ascii ''Geniki Taxydromiki'',
      apiUrl = ascii ''https://www.taxydromiki.com/track'',
      patterns = [[(Upper, 2, 2), (Digit, 9, 11)],
                  [(Digit, 10, 12)]],
      color = ascii ''#ec4899''\<rparr>"

text \<open>The registry, in declaration order (the order \<open>Object.entries\<close> yields).\<close>

definition COURIERS :: "(jsstring \<times> courier_config) list" where
  "COURIERS =
    [(ascii ''elta'', elta), (ascii ''acs'', acs), (ascii ''speedex'', speedex),
     (ascii ''box_now'', box_now), (ascii ''courier_center'', courier_center),
     (ascii ''geniki'', geniki)]"

text \<open>The two nested loops of \<open>detectCourier\<close>.\<close>

fun patterns_loop :: "pattern list \<Rightarrow> jsstring \<Rightarrow> bool" where
  "patterns_loop [] tn = False"
| "patterns_loop (p # ps) tn = (if test p tn then True else patterns_loop ps tn)"

fun couriers_loop :: "(jsstring \<times> courier_config) list \<Rightarrow> jsstring \<Rightarrow> jsstring option" where
  "couriers_loop [] tn = None"
| "couriers_loop ((code, courier) # rest) tn =
     (if patterns_loop (patterns courier) tn then Some code else couriers_loop rest tn)"

definition detectCourier :: "'w runtime \<Rightarrow> jsstring \<Rightarrow> jsstring option" where
  "detectCourier E trackingNumber =
     couriers_loop COURIERS (toUpperCase E (trim trackingNumber))"


section \<open>Tracking results\<close>

record TrackingResult =
  success :: bool
  trackingNumber :: jsstring
  courier :: jsstring
  courierName :: jsstring
  courierColor :: jsstring
  status :: jsstring
  statusCategory :: category
  events :: "TrackingEvent list"
  latestEvent :: "TrackingEvent option"
  errorMessage :: "jsstring option"


section \<open>The ELTA fetcher\<close>

definition not_found_result :: "jsstring \<Rightarrow> courier_config \<Rightarrow> jsstring \<Rightarrow> TrackingResult" where
  "not_found_result code cfg tn =
     \<lparr>success = True, trackingNumber = tn, courier = code,
      courierName = name cfg, courierColor = color cfg,
      status = ascii ''Not Found'', statusCategory = unknown,
      events = [], latestEvent = None, errorMessage = None\<rparr>"

definition caught_message :: "js_thrown \<Rightarrow> jsstring" where
  \<comment> \<open>\<open>error instanceof Error ? error.message : 'Unknown error'\<close>\<close>
  "caught_message err = (case err of ErrorObj message \<Rightarrow> message
                                   | NonError \<Rightarrow> ascii ''Unknown error'')"

definition catch_result :: "jsstring \<Rightarrow> courier_config \<Rightarrow> jsstring \<Rightarrow> js_thrown \<Rightarrow> TrackingResult" where
  "catch_result code cfg tn err =
     \<lparr>success = False, trackingNumber = tn, courier = code,
      courierName = name cfg, courierColor = color cfg,
      status = ascii ''Error'', statusCategory = error,
      events = [], latestEvent = None,
      errorMessage = Some (caught_message err)\<rparr>"

definition strip_bom :: "jsstring \<Rightarrow> jsstring" where
  "strip_bom text = (case text of [] \<Rightarrow> text | c # cs \<Rightarrow> if c = 0xFEFF then cs else text)"

definition elta_found :: "'w runtime \<Rightarrow> jsstring \<Rightarrow> elta_shipment \<Rightarrow> TrackingResult" where
  "elta_found E tn trackingData =
     (let evs = (case s_result trackingData of None \<Rightarrow> [] | Some r \<Rightarrow> r);
          latest = (case evs of [] \<Rightarrow> None | e # _ \<Rightarrow> Some e);
          translatedStatus = translateStatus E (or_else (map_option ev_status latest) [])
      in \<lparr>success = True, trackingNumber = tn, courier = ascii ''elta'',
          courierName = name elta, courierColor = color elta,
          status = translatedStatus, statusCategory = getStatusCategory E translatedStatus,
          events = evs, latestEvent = latest, errorMessage = None\<rparr>)"

definition elta_lookup :: "elta_data \<Rightarrow> jsstring \<Rightarrow> elta_shipment option" where
  \<comment> \<open>\<open>data.result?.[trackingNumber]\<close>\<close>
  "elta_lookup data tn = (case d_result data of None \<Rightarrow> None | Some r \<Rightarrow> map_of r tn)"

definition elta_body :: "'w runtime \<Rightarrow> jsstring \<Rightarrow> elta_data \<Rightarrow> TrackingResult" where
  "elta_body E tn data =
     (if d_status data = Some 1 then
        (case elta_lookup data tn of
           None \<Rightarrow> not_found_result (ascii ''elta'') elta tn
         | Some trackingData \<Rightarrow>
             if s_status trackingData = Some 1 then elta_found E tn trackingData
             else not_found_result (ascii ''elta'') elta tn)
      else not_found_result (ascii ''elta'') elta tn)"

text \<open>The \<open>try\<close> block of \<open>trackELTA\<close>: \<open>Inl\<close> is a value thrown inside it.\<close>

definition trackELTA_try ::
  "'w runtime \<Rightarrow> jsstring \<Rightarrow> 'w \<Rightarrow> (js_thrown + TrackingResult) \<times> 'w" where
  "trackELTA_try E tn w =
     (case fetch_text E tn w of
        (Inl err, w') \<Rightarrow> (Inl err, w')
      | (Inr text, w') \<Rightarrow>
          (case JSON_parse E (strip_bom text) of
             Inl err \<Rightarrow> (Inl err, w')
           | Inr data \<Rightarrow> (Inr (elta_body E tn data), w')))"

definition trackELTA :: "'w runtime \<Rightarrow> jsstring \<Rightarrow> 'w \<Rightarrow> TrackingResult \<times> 'w" where
  "trackELTA E tn w =
     (case trackELTA_try E tn w of
        (Inr r, w') \<Rightarrow> (r, w')
      | (Inl err, w') \<Rightarrow> (catch_result (ascii ''elta'') elta tn err, w'))"


section \<open>The Box Now fetcher\<close>

text \<open>\<open>s.split('T')\<close>: the runs between the separators, at least one.\<close>

fun split_acc :: "nat \<Rightarrow> jsstring \<Rightarrow> jsstring \<Rightarrow> jsstring list" where
  "split_acc sep cur [] = [rev cur]"
| "split_acc sep cur (c # cs) =
     (if c = sep then rev cur # split_acc sep [] cs else split_acc sep (c # cur) cs)"

definition split_T :: "jsstring \<Rightarrow> jsstring list" where
  "split_T s = split_acc 0x54 [] s"

definition boxnow_event_map :: "boxnow_event \<Rightarrow> TrackingEvent" where
  "boxnow_event_map e =
     \<lparr>ev_date = (case e_createTime e of None \<Rightarrow> []
                 | Some t \<Rightarrow> (case split_T t of [] \<Rightarrow> [] | d # _ \<Rightarrow> d)),
      ev_time = (case e_createTime e of None \<Rightarrow> []
                 | Some t \<Rightarrow> (case split_T t of _ # h # _ \<Rightarrow> take 8 h | _ \<Rightarrow> [])),
      ev_place = or_else (e_locationDisplayName e) [],
      ev_status = or_else (e_type e) []\<rparr>"

definition boxnow_found :: "'w runtime \<Rightarrow> jsstring \<Rightarrow> boxnow_parcel \<Rightarrow> TrackingResult" where
  "boxnow_found E tn parcel =
     (let evs = map boxnow_event_map (case p_events parcel of None \<Rightarrow> [] | Some es \<Rightarrow> es);
          state = or_else (p_state parcel) [];
          translatedStatus = translateStatus E state
      in \<lparr>success = True, trackingNumber = tn, courier = ascii ''box_now'',
          courierName = name box_now, courierColor = color box_now,
          status = translatedStatus,
          statusCategory = (if state = ascii ''delivered'' then delivered else in_transit),
          events = evs,
          latestEvent = (case evs of [] \<Rightarrow> None | e # _ \<Rightarrow> Some e),
          errorMessage = None\<rparr>)"

definition boxnow_body :: "'w runtime \<Rightarrow> jsstring \<Rightarrow> boxnow_data \<Rightarrow> TrackingResult" where
  "boxnow_body E tn data =
     (case (case b_data data of None \<Rightarrow> [] | Some ps \<Rightarrow> ps) of
        parcel # _ \<Rightarrow> boxnow_found E tn parcel
      | [] \<Rightarrow> not_found_result (ascii ''box_now'') box_now tn)"

definition trackBoxNow_try ::
  "'w runtime \<Rightarrow> jsstring \<Rightarrow> 'w \<Rightarrow> (js_thrown + TrackingResult) \<times> 'w" where
  "trackBoxNow_try E tn w =
     (case fetch_json E tn w of
        (Inl err, w') \<Rightarrow> (Inl err, w')
      | (Inr data, w') \<Rightarrow> (Inr (boxnow_body E tn data), w'))"

definition trackBoxNow :: "'w runtime \<Rightarrow> jsstring \<Rightarrow> 'w \<Rightarrow> TrackingResult \<times> 'w" where
  "trackBoxNow E tn w =
     (case trackBoxNow_try E tn w of
        (Inr r, w') \<Rightarrow> (r, w')
      | (Inl err, w') \<Rightarrow> (catch_result (ascii ''box_now'') box_now tn err, w'))"


section \<open>Dispatch and the two request handlers\<close>

definition not_detected_result :: "jsstring \<Rightarrow> TrackingResult" where
  "not_detected_result tn =
     \<lparr>success = False, trackingNumber = tn, courier = ascii ''unknown'',
      courierName = ascii ''Unknown Courier'', courierColor = ascii ''#6b7280'',
      status = ascii ''Error'', statusCategory = error,
      events = [], latestEvent = None,
      errorMessage = Some (ascii ''Could not detect courier from tracking number format'')\<rparr>"

definition not_implemented_result :: "jsstring \<Rightarrow> jsstring \<Rightarrow> TrackingResult" where
  "not_implemented_result courierCode tn =
     \<lparr>success = False, trackingNumber = tn, courier = courierCode,
      courierName = or_else (map_option name (map_of COURIERS courierCode)) courierCode,
      courierColor = or_else (map_option color (map_of COURIERS courierCode)) (ascii ''#6b7280''),
      status = ascii ''Not Implemented'', statusCategory = error,
      events = [], latestEvent = None,
      errorMessage = Some (ascii ''Tracking for '' @ courierCode @ ascii '' is not yet implemented'')\<rparr>"

definition trackShipment :: "'w runtime \<Rightarrow> jsstring \<Rightarrow> 'w \<Rightarrow> TrackingResult \<times> 'w" where
  "trackShipment E tn w =
     (case detectCourier E tn of
        None \<Rightarrow> (not_detected_result tn, w)
      | Some courierCode \<Rightarrow>
          if courierCode = ascii ''elta'' then trackELTA E tn w
          else if courierCode = ascii ''box_now'' then trackBoxNow E tn w
          else (not_implemented_result courierCode tn, w))"

definition invalid_result :: "jsstring \<Rightarrow> TrackingResult" where
  "invalid_result normalizedNumber =
     \<lparr>success = False, trackingNumber = normalizedNumber, courier = ascii ''unknown'',
      courierName = ascii ''Unknown'', courierColor = ascii ''#6b7280'',
      status = ascii ''Error'', statusCategory = error,
      events = [], latestEvent = None,
      errorMessage = Some (ascii ''Invalid tracking number format'')\<rparr>"

text \<open>
  The \<open>for\<close> loop of \<open>POST\<close>, with the array \<open>results\<close> it pushes onto. \<open>trackAll\<close> is
  the loop started on the empty array: the orchestrator of the batch.
\<close>

fun POST_loop ::
  "'w runtime \<Rightarrow> jsstring list \<Rightarrow> TrackingResult list \<Rightarrow> 'w \<Rightarrow> TrackingResult list \<times> 'w" where
  "POST_loop E [] results w = (results, w)"
| "POST_loop E (n # ns) results w =
     (let normalizedNumber = toUpperCase E (trim n) in
      if length normalizedNumber < 8
      then POST_loop E ns (results @ [invalid_result normalizedNumber]) w
      else (case trackShipment E normalizedNumber w of
              (result, w') \<Rightarrow> POST_loop E ns (results @ [result]) w'))"

definition trackAll :: "'w runtime \<Rightarrow> jsstring list \<Rightarrow> 'w \<Rightarrow> TrackingResult list \<times> 'w" where
  "trackAll E numbers w = POST_loop E numbers [] w"

text \<open>
  A handler answers with the JSON of a result list, of one result, or of an error
  message with its HTTP status. \<open>POST\<close> is given the \<open>trackingNumbers\<close> member of the
  request body (\<open>None\<close>: missing or not an array); its elements are strings, on which
  nothing inside the \<open>try\<close> block throws, so the status 500 answer does not arise.
  \<open>GET\<close> is given the query parameter \<open>number\<close> (\<open>None\<close>: not in the URL).
\<close>

datatype response =
    Results "TrackingResult list"
  | Result TrackingResult
  | Error_response jsstring nat

definition POST :: "'w runtime \<Rightarrow> jsstring list option \<Rightarrow> 'w \<Rightarrow> response \<times> 'w" where
  "POST E trackingNumbers w =
     (case trackingNumbers of
        None \<Rightarrow> (Error_response (ascii ''Please provide at least one tracking number'') 400, w)
      | Some [] \<Rightarrow> (Error_response (ascii ''Please provide at least one tracking number'') 400, w)
      | Some numbers \<Rightarrow> (case trackAll E numbers w of (results, w') \<Rightarrow> (Results results, w')))"

definition GET :: "'w runtime \<Rightarrow> jsstring option \<Rightarrow> 'w \<Rightarrow> response \<times> 'w" where
  "GET E number w =
     (case number of
        None \<Rightarrow> (Error_response (ascii ''Please provide a tracking number'') 400, w)
      | Some tn \<Rightarrow>
          if tn = [] then (Error_response (ascii ''Please provide a tracking number'') 400, w)
          else (case trackShipment E (toUpperCase E tn) w of (result, w') \<Rightarrow> (Result result, w')))"

text \<open>
  A runtime to run the definitions on: it leaves strings outside the alphabet as they
  are, and its world counts the network calls made; ELTA
  answers every request with the text \<open>ok\<close>, which parses to a body with one delivered
  shipment \<open>SE101046219GR\<close>; Box Now answers with one parcel in state \<open>in-depot\<close>.
\<close>

definition sample_event :: TrackingEvent where
  "sample_event =
     \<lparr>ev_date = ascii ''01-02-2024'', ev_time = ascii ''10:00'', ev_place = ascii ''ATHENS'',
      ev_status = ascii ''delivered''\<rparr>"

definition sample_runtime :: "nat runtime" where
  "sample_runtime =
     \<lparr>lower_other = (\<lambda>s. s), upper_other = (\<lambda>s. s),
      fetch_text = (\<lambda>tn w. (Inr (0xFEFF # ascii ''ok''), Suc w)),
      JSON_parse = (\<lambda>text.
        if text = ascii ''ok''
        then Inr \<lparr>d_status = Some 1,
                  d_result = Some [(ascii ''SE101046219GR'',
                                    \<lparr>s_status = Some 1, s_result = Some [sample_event]\<rparr>)]\<rparr>
        else Inl (ErrorObj (ascii ''Unexpected token''))),
      fetch_json = (\<lambda>tn w.
        (Inr \<lparr>b_data = Some [\<lparr>p_events = Some [\<lparr>e_createTime = Some (ascii ''2024-02-01T10:00:00.000Z''),
                                                  e_locationDisplayName = Some (ascii ''ATHENS''),
                                                  e_type = Some (ascii ''in-depot'')\<rparr>],
                               p_state = Some (ascii ''in-depot'')\<rparr>]\<rparr>, Suc w))\<rparr>"

text \<open>A runtime whose network calls all reject with an \<open>Error\<close> of the given message.\<close>

definition failing_runtime :: "jsstring \<Rightarrow> nat runtime" where
  "failing_runtime message =
     \<lparr>lower_other = (\<lambda>s. s), upper_other = (\<lambda>s. s),
      fetch_text = (\<lambda>tn w. (Inl (ErrorObj message), Suc w)),
      JSON_parse = (\<lambda>text. Inl (ErrorObj message)),
      fetch_json = (\<lambda>tn w. (Inl (ErrorObj message), Suc w))\<rparr>"


text \<open>
  The invariant of the data model: a result with events has its first event as
  \<open>latestEvent\<close>, and its category is one of the five of the enumeration.
\<close>

definition result_invariant :: "TrackingResult \<Rightarrow> bool" where
  "result_invariant r \<longleftrightarrow>
     (events r \<noteq> [] \<longrightarrow> latestEvent r = Some (events r ! 0))
     \<and> statusCategory r \<in> {delivered, in_transit, created, unknown, error}"

text \<open>A carrier owns a string when one of its rules matches the whole of it.\<close>

definition has_matching_rule :: "courier_config \<Rightarrow> jsstring \<Rightarrow> bool" where
  "has_matching_rule cfg n \<longleftrightarrow> (\<exists>p\<in>set (patterns cfg). test p n)"


section \<open>Properties of the status translation\<close>

lemma includes_str_sublist: "includes_str s n \<longleftrightarrow> sublist n s"
  by (induction s) (simp_all add: sublist_Cons_right)

lemma entry_matches_sublist: "entry_matches E greek sl \<longleftrightarrow> sublist (toLowerCase E greek) sl"
  by (auto simp: entry_matches_def includes_str_sublist)


lemma translate_loop_first_match:
  "i < length es \<Longrightarrow> entry_matches E (fst (es ! i)) sl \<Longrightarrow>
   \<forall>j<i. \<not> entry_matches E (fst (es ! j)) sl \<Longrightarrow> translate_loop E es sl s = snd (es ! i)"
proof (induction es arbitrary: i)
  case Nil
  then show ?case by simp
next
  case (Cons e es)
  obtain g en where e: "e = (g, en)" by (cases e)
  show ?case
  proof (cases i)
    case 0
    with Cons.prems show ?thesis by (simp add: e)
  next
    case (Suc k)
    with Cons.prems have "\<not> entry_matches E (fst ((e # es) ! 0)) sl" by blast
    hence nm: "\<not> entry_matches E g sl" by (simp add: e)
    have k: "k < length es" "entry_matches E (fst (es ! k)) sl"
      using Cons.prems Suc by simp_all
    have "\<forall>j<k. \<not> entry_matches E (fst (es ! j)) sl"
    proof (intro allI impI)
      fix j assume "j < k"
      hence "Suc j < i" by (simp add: Suc)
      with Cons.prems have "\<not> entry_matches E (fst ((e # es) ! Suc j)) sl" by blast
      thus "\<not> entry_matches E (fst (es ! j)) sl" by simp
    qed
    with Cons.IH k have "translate_loop E es sl s = snd (es ! k)" by blast
    with nm show ?thesis by (simp add: e Suc)
  qed
qed


lemmas case_defs = in_alphabet_def greek_letter_def lower_unit_def upper_unit_def cased_def
  case_ignorable_def followed_by_cased_def

lemma lower_from_no_sigma:
  "\<forall>c\<in>set s. c \<noteq> 0x3A3 \<Longrightarrow> lower_from b s = map lower_unit s"
  by (induction s arbitrary: b) simp_all

lemma toLowerCase_basic_latin:
  assumes "list_all (\<lambda>c. c < 0x80) s"
  shows "toLowerCase E s = map lower_unit s"
proof -
  from assms have "list_all in_alphabet s"
    by (auto simp: list_all_iff in_alphabet_def)
  moreover from assms have "\<forall>c\<in>set s. c \<noteq> 0x3A3"
    by (auto simp: list_all_iff)
  ultimately show ?thesis by (simp add: toLowerCase_def lower_from_no_sigma)
qed

text \<open>The lower-cased keys of the table, for every runtime: the keys are in the alphabet.\<close>

lemma lowered_keys:
  "map (\<lambda>e. toLowerCase E (fst e)) STATUS_TRANSLATIONS =
    [[0x3B1, 0x3C0, 0x3BF, 0x3C3, 0x3C4, 0x3BF, 0x3BB, 0x3AE, 0x20,
      0x3C0, 0x3B1, 0x3C1, 0x3B1, 0x3B4, 0x3CC, 0x3B8, 0x3B7, 0x3BA, 0x3B5],
     [0x3B1, 0x3C0, 0x3BF, 0x3C3, 0x3C4, 0x3BF, 0x3BB, 0x3AE, 0x20,
      0x3C0, 0x3B1, 0x3C1, 0x3B1, 0x3B4, 0x3CC, 0x3B8, 0x3B7, 0x3BA, 0x3B5,
      0x20, 0x3C3, 0x3B5],
     [0x3B1, 0x3C0, 0x3BF, 0x3C3, 0x3C4, 0x3BF, 0x3BB, 0x3AE, 0x20,
      0x3B2, 0x3C1, 0x3AF, 0x3C3, 0x3BA, 0x3B5, 0x3C4, 0x3B1, 0x3B9, 0x20,
      0x3C3, 0x3B5, 0x20, 0x3C3, 0x3C4, 0x3AC, 0x3B4, 0x3B9, 0x3BF, 0x20,
      0x3BC, 0x3B5, 0x3C4, 0x3B1, 0x3C6, 0x3BF, 0x3C1, 0x3AC, 0x3C2],
     [0x3B4, 0x3B7, 0x3BC, 0x3B9, 0x3BF, 0x3C5, 0x3C1, 0x3B3, 0x3AF, 0x3B1, 0x20,
      0x3C3, 0x3C5, 0x2E, 0x3B4, 0x3B5, 0x2E, 0x3C4, 0x3B1, 0x2E],
     [0x3B7, 0x20, 0x3B1, 0x3C0, 0x3BF, 0x3C3, 0x3C4, 0x3BF, 0x3BB, 0x3B7, 0x20,
      0x3C0, 0x3B1, 0x3C1, 0x3B1, 0x3B4, 0x3BF, 0x3B8, 0x3B7, 0x3BA, 0x3B5],
     ascii ''delivered'', ascii ''in-depot'', ascii ''final-destination'']"
  by (simp add: STATUS_TRANSLATIONS_def toLowerCase_def ascii_def case_defs)

lemma lowered_key:
  "i < length STATUS_TRANSLATIONS \<Longrightarrow>
   toLowerCase E (fst (STATUS_TRANSLATIONS ! i))
     = map (\<lambda>e. toLowerCase E (fst e)) STATUS_TRANSLATIONS ! i"
  by simp


lemma STATUS_TRANSLATIONS_length: "length STATUS_TRANSLATIONS = 8"
  by (simp add: STATUS_TRANSLATIONS_def)

lemma match_flags:
  "map (\<lambda>e. entry_matches E (fst e) sl) STATUS_TRANSLATIONS
     = map (\<lambda>k. k = sl \<or> includes_str sl k)
         (map (\<lambda>e. toLowerCase E (fst e)) STATUS_TRANSLATIONS)"
  by (simp add: entry_matches_def)

lemma flags_nth:
  "map (\<lambda>e. entry_matches E (fst e) sl) STATUS_TRANSLATIONS = fs \<Longrightarrow>
   i < length STATUS_TRANSLATIONS \<Longrightarrow>
   entry_matches E (fst (STATUS_TRANSLATIONS ! i)) sl = fs ! i"
proof -
  assume fs: "map (\<lambda>e. entry_matches E (fst e) sl) STATUS_TRANSLATIONS = fs"
    and i: "i < length STATUS_TRANSLATIONS"
  from i have "map (\<lambda>e. entry_matches E (fst e) sl) STATUS_TRANSLATIONS ! i
      = entry_matches E (fst (STATUS_TRANSLATIONS ! i)) sl"
    by (rule nth_map)
  with fs show ?thesis by simp
qed




lemma lower_ascii_simps:
  "toLowerCase E (ascii ''Delivered to'') = ascii ''delivered to''"
  "toLowerCase E (ascii ''delivered'') = ascii ''delivered''"
  by (simp_all add: toLowerCase_basic_latin ascii_def lower_unit_def)

lemma delivered_in_delivered_to: "sublist (ascii ''delivered'') (ascii ''delivered to'')"
proof -
  have "ascii ''delivered to'' = ascii ''delivered'' @ ascii '' to''" by (simp add: ascii_def)
  thus ?thesis by simp
qed

lemma sublist_chain: "sublist xs ys \<Longrightarrow> sublist ys zs \<Longrightarrow> sublist xs zs"
  unfolding sublist_def by (metis append.assoc)

lemma second_entry_shadowed:
  "entry_matches E (fst (STATUS_TRANSLATIONS ! 1)) sl \<Longrightarrow>
   entry_matches E (fst (STATUS_TRANSLATIONS ! 0)) sl"
proof -
  assume a: "entry_matches E (fst (STATUS_TRANSLATIONS ! 1)) sl"
  have "prefix (toLowerCase E (fst (STATUS_TRANSLATIONS ! 0)))
               (toLowerCase E (fst (STATUS_TRANSLATIONS ! 1)))"
    by (simp add: lowered_key STATUS_TRANSLATIONS_length lowered_keys)
  hence "sublist (toLowerCase E (fst (STATUS_TRANSLATIONS ! 0)))
                 (toLowerCase E (fst (STATUS_TRANSLATIONS ! 1)))"
    by (rule prefix_imp_sublist)
  moreover from a have "sublist (toLowerCase E (fst (STATUS_TRANSLATIONS ! 1))) sl"
    by (simp add: entry_matches_sublist)
  ultimately show ?thesis
    unfolding entry_matches_sublist by (rule sublist_chain)
qed

text \<open>
  Claim C9. \<open>translateStatus\<close> never returns "Delivered to". The second entry of the
  table is unreachable: a status that contains its phrase contains the phrase of the
  first entry, which is a prefix of it and is tested before; and the input
  "Delivered to" itself is not passed through, since it contains "delivered".
\<close>

theorem translateStatus_never_delivered_to:
  "translateStatus E s \<noteq> ascii ''Delivered to''"
proof
  assume eq: "translateStatus E s = ascii ''Delivered to''"
  let ?sl = "toLowerCase E s"
  have sh: "entry_matches E (fst (STATUS_TRANSLATIONS ! 1)) ?sl
      \<Longrightarrow> entry_matches E (fst (STATUS_TRANSLATIONS ! 0)) ?sl"
    by (rule second_entry_shadowed)
  have pass: "s = ascii ''Delivered to'' \<Longrightarrow> entry_matches E (ascii ''delivered'') ?sl"
    using delivered_in_delivered_to by (simp add: entry_matches_sublist lower_ascii_simps)
  have lits: "ascii ''Delivered'' \<noteq> ascii ''Delivered to''"
    "ascii ''In Transit'' \<noteq> ascii ''Delivered to''"
    "ascii ''Shipment Created'' \<noteq> ascii ''Delivered to''"
    "ascii ''In Depot'' \<noteq> ascii ''Delivered to''"
    "ascii ''At Destination'' \<noteq> ascii ''Delivered to''"
    by (simp_all add: ascii_def)
  from eq sh pass lits show False
    unfolding translateStatus_def STATUS_TRANSLATIONS_def
    by (simp split: if_splits)
qed


section \<open>Properties of detection\<close>

lemma patterns_loop_iff: "patterns_loop ps n \<longleftrightarrow> (\<exists>p\<in>set ps. test p n)"
  by (induction ps) auto

lemma couriers_loop_none:
  "couriers_loop cs n = None \<longleftrightarrow> (\<forall>i<length cs. \<not> patterns_loop (patterns (snd (cs ! i))) n)"
proof (induction cs)
  case Nil
  show ?case by simp
next
  case (Cons c cs)
  obtain code cfg where c: "c = (code, cfg)" by (cases c)
  show ?case
    by (simp add: c Cons.IH All_less_Suc2)
qed

lemma couriers_loop_first:
  "i < length cs \<Longrightarrow> patterns_loop (patterns (snd (cs ! i))) n \<Longrightarrow>
   \<forall>j<i. \<not> patterns_loop (patterns (snd (cs ! j))) n \<Longrightarrow>
   couriers_loop cs n = Some (fst (cs ! i))"
proof (induction cs arbitrary: i)
  case Nil
  then show ?case by simp
next
  case (Cons c cs)
  obtain code cfg where c: "c = (code, cfg)" by (cases c)
  show ?case
  proof (cases i)
    case 0
    with Cons.prems show ?thesis by (simp add: c)
  next
    case (Suc k)
    with Cons.prems have "\<not> patterns_loop (patterns (snd ((c # cs) ! 0))) n" by blast
    hence nm: "\<not> patterns_loop (patterns cfg) n" by (simp add: c)
    have k: "k < length cs" "patterns_loop (patterns (snd (cs ! k))) n"
      using Cons.prems Suc by simp_all
    have "\<forall>j<k. \<not> patterns_loop (patterns (snd (cs ! j))) n"
    proof (intro allI impI)
      fix j assume "j < k"
      hence "Suc j < i" by (simp add: Suc)
      with Cons.prems have "\<not> patterns_loop (patterns (snd ((c # cs) ! Suc j))) n" by blast
      thus "\<not> patterns_loop (patterns (snd (cs ! j))) n" by simp
    qed
    with Cons.IH k have "couriers_loop cs n = Some (fst (cs ! k))" by blast
    with nm show ?thesis by (simp add: c Suc)
  qed
qed

lemma couriers_loop_some:
  "couriers_loop cs n = Some code \<Longrightarrow>
   \<exists>i<length cs. code = fst (cs ! i) \<and> patterns_loop (patterns (snd (cs ! i))) n
     \<and> (\<forall>j<i. \<not> patterns_loop (patterns (snd (cs ! j))) n)"
proof (induction cs)
  case Nil
  then show ?case by simp
next
  case (Cons c cs)
  obtain code' cfg where c: "c = (code', cfg)" by (cases c)
  show ?case
  proof (cases "patterns_loop (patterns cfg) n")
    case True
    with Cons.prems have "code = code'" by (simp add: c)
    with True show ?thesis by (intro exI[of _ 0]) (simp add: c)
  next
    case False
    with Cons.prems have "couriers_loop cs n = Some code" by (simp add: c)
    with Cons.IH obtain i where i: "i < length cs" "code = fst (cs ! i)"
      "patterns_loop (patterns (snd (cs ! i))) n"
      "\<forall>j<i. \<not> patterns_loop (patterns (snd (cs ! j))) n" by blast
    have "\<forall>j<Suc i. \<not> patterns_loop (patterns (snd ((c # cs) ! j))) n"
    proof (intro allI impI)
      fix j assume j: "j < Suc i"
      show "\<not> patterns_loop (patterns (snd ((c # cs) ! j))) n"
      proof (cases j)
        case 0
        with False show ?thesis by (simp add: c)
      next
        case (Suc m)
        with j i(4) show ?thesis by simp
      qed
    qed
    with i show ?thesis by (intro exI[of _ "Suc i"]) simp
  qed
qed

lemma test_min_length: "test p s \<Longrightarrow> (\<Sum>(cl, lo, hi)\<leftarrow>p. lo) \<le> length s"
proof (induction p arbitrary: s)
  case Nil
  then show ?case by simp
next
  case (Cons it p)
  obtain cl lo hi where it: "it = (cl, lo, hi)" by (cases it)
  from Cons.prems obtain k where k: "lo \<le> k" "k \<le> length s" "test p (drop k s)"
    by (auto simp: it list_ex_iff)
  from Cons.IH[OF k(3)] have "(\<Sum>(cl, lo, hi)\<leftarrow>p. lo) \<le> length s - k" by simp
  with k show ?case by (simp add: it)
qed

lemma test_digits:
  "lo \<le> length s \<Longrightarrow> length s \<le> hi \<Longrightarrow> list_all (in_class Digit) s \<Longrightarrow> test [(Digit, lo, hi)] s"
  by (auto simp: list_ex_iff intro!: bexI[of _ "length s"])

lemma short_undetected: "length n < 10 \<Longrightarrow> couriers_loop COURIERS n = None"
proof -
  assume len: "length n < 10"
  have notest: "\<not> test p n" if "c \<in> set COURIERS" "p \<in> set (patterns (snd c))" for c p
  proof
    assume "test p n"
    from test_min_length[OF this] len have "(\<Sum>(cl, lo, hi)\<leftarrow>p. lo) < 10" by simp
    with that show False
      by (auto simp: COURIERS_def elta_def acs_def speedex_def box_now_def courier_center_def
            geniki_def lit_def)
  qed
  have "\<forall>i<length COURIERS. \<not> patterns_loop (patterns (snd (COURIERS ! i))) n"
  proof (intro allI impI)
    fix i assume "i < length COURIERS"
    hence "COURIERS ! i \<in> set COURIERS" by (rule nth_mem)
    with notest show "\<not> patterns_loop (patterns (snd (COURIERS ! i))) n"
      unfolding patterns_loop_iff by blast
  qed
  thus ?thesis by (simp add: couriers_loop_none)
qed

lemma dropWhile_id: "\<forall>x\<in>set xs. \<not> P x \<Longrightarrow> dropWhile P xs = xs"
  by (cases xs) auto

lemma digits_normalized:
  assumes "list_all (in_class Digit) s"
  shows "toUpperCase E (trim s) = s"
proof -
  have nw: "\<not> is_whitespace c" if "in_class Digit c" for c
    using that by (auto simp: is_whitespace_def)
  have up: "upper_unit c = c" if "in_class Digit c" for c
    using that by (auto simp: upper_unit_def)
  have "\<forall>c\<in>set s. \<not> is_whitespace c" using assms nw by (auto simp: list_all_iff)
  hence t: "trim s = s"
    unfolding trim_def by (simp add: dropWhile_id)
  have m: "map upper_unit s = s"
    using assms up by (auto simp: list_all_iff intro: map_idI)
  have "list_all (\<lambda>c. in_alphabet c \<and> c \<noteq> 0x390 \<and> c \<noteq> 0x3B0) s"
    using assms by (auto simp: list_all_iff in_alphabet_def)
  with t m show ?thesis by (simp add: toUpperCase_def)
qed

lemma patterns_loop_rule: "patterns_loop (patterns cfg) n \<longleftrightarrow> has_matching_rule cfg n"
  by (simp add: patterns_loop_iff has_matching_rule_def)

lemma COURIERS_codes_distinct: "distinct (map fst COURIERS)"
  by (simp add: COURIERS_def ascii_def)

lemma ten_digits_acs:
  assumes "length tn = 10" "list_all (in_class Digit) tn"
  shows "has_matching_rule acs tn" "has_matching_rule geniki tn"
    "detectCourier E tn = Some (ascii ''acs'')"
proof -
  show a: "has_matching_rule acs tn"
    unfolding has_matching_rule_def acs_def using assms by (simp add: test_digits)
  show "has_matching_rule geniki tn"
    unfolding has_matching_rule_def geniki_def using assms by (simp add: test_digits)
  have "\<not> has_matching_rule elta tn"
  proof
    assume "has_matching_rule elta tn"
    then obtain p where p: "p \<in> set (patterns elta)" "test p tn"
      by (auto simp: has_matching_rule_def)
    from test_min_length[OF p(2)] p(1) assms(1) show False
      by (auto simp: elta_def lit_def)
  qed
  with a show "detectCourier E tn = Some (ascii ''acs'')"
    by (simp add: detectCourier_def digits_normalized[OF assms(2)] COURIERS_def patterns_loop_rule)
qed

text \<open>
  Claim C2. \<open>detectCourier\<close> walks the registry in declaration order and returns the
  carrier of the first rule that matches the whole normalised string: it returns none
  exactly when no carrier has a matching rule, it returns the earliest carrier that has
  one, and when two carriers both have one it returns a carrier no later than the
  earlier of the two, never the later. A string of ten digits satisfies the rule of
  \<open>acs\<close> and the digit-count rule of \<open>geniki\<close>, and resolves to \<open>acs\<close>.
\<close>

theorem detectCourier_registry_order:
  "(detectCourier E tn = None \<longleftrightarrow>
      (\<forall>i<length COURIERS. \<not> has_matching_rule (snd (COURIERS ! i)) (toUpperCase E (trim tn))))
   \<and> (\<forall>i<length COURIERS.
        has_matching_rule (snd (COURIERS ! i)) (toUpperCase E (trim tn))
        \<and> (\<forall>j<i. \<not> has_matching_rule (snd (COURIERS ! j)) (toUpperCase E (trim tn)))
        \<longrightarrow> detectCourier E tn = Some (fst (COURIERS ! i)))
   \<and> (\<forall>i j. i < j \<and> j < length COURIERS
        \<and> has_matching_rule (snd (COURIERS ! i)) (toUpperCase E (trim tn))
        \<and> has_matching_rule (snd (COURIERS ! j)) (toUpperCase E (trim tn))
        \<longrightarrow> (\<exists>k\<le>i. detectCourier E tn = Some (fst (COURIERS ! k)))
            \<and> detectCourier E tn \<noteq> Some (fst (COURIERS ! j)))
   \<and> (length tn = 10 \<and> list_all (in_class Digit) tn
        \<longrightarrow> has_matching_rule acs tn \<and> has_matching_rule geniki tn
            \<and> detectCourier E tn = Some (ascii ''acs''))"
proof (intro conjI allI impI)
  let ?n = "toUpperCase E (trim tn)"
  show "detectCourier E tn = None \<longleftrightarrow>
      (\<forall>i<length COURIERS. \<not> has_matching_rule (snd (COURIERS ! i)) ?n)"
    by (simp add: detectCourier_def couriers_loop_none patterns_loop_rule)
next
  fix i
  assume "i < length COURIERS"
    and "has_matching_rule (snd (COURIERS ! i)) (toUpperCase E (trim tn))
         \<and> (\<forall>j<i. \<not> has_matching_rule (snd (COURIERS ! j)) (toUpperCase E (trim tn)))"
  thus "detectCourier E tn = Some (fst (COURIERS ! i))"
    unfolding detectCourier_def by (intro couriers_loop_first) (simp_all add: patterns_loop_rule)
next
  fix i j
  let ?n = "toUpperCase E (trim tn)"
  assume a: "i < j \<and> j < length COURIERS \<and> has_matching_rule (snd (COURIERS ! i)) ?n
     \<and> has_matching_rule (snd (COURIERS ! j)) ?n"
  hence "couriers_loop COURIERS ?n \<noteq> None"
    by (auto simp: couriers_loop_none patterns_loop_rule)
  then obtain code where code: "couriers_loop COURIERS ?n = Some code" by blast
  from couriers_loop_some[OF this] obtain k where k: "k < length COURIERS"
    "code = fst (COURIERS ! k)" "\<forall>m<k. \<not> patterns_loop (patterns (snd (COURIERS ! m))) ?n"
    by blast
  have ki: "k \<le> i"
  proof (rule ccontr)
    assume "\<not> k \<le> i"
    hence "i < k" by simp
    with k(3) a show False by (simp add: patterns_loop_rule)
  qed
  thus "\<exists>k\<le>i. detectCourier E tn = Some (fst (COURIERS ! k))"
    using code k(2) by (auto simp: detectCourier_def)
  from ki a have "k \<noteq> j" by simp
  with COURIERS_codes_distinct k(1) a have "fst (COURIERS ! k) \<noteq> fst (COURIERS ! j)"
    by (simp add: distinct_conv_nth)
  thus "detectCourier E tn \<noteq> Some (fst (COURIERS ! j))"
    using code k(2) by (simp add: detectCourier_def)
next
  assume "length tn = 10 \<and> list_all (in_class Digit) tn"
  thus "has_matching_rule acs tn" by (simp add: ten_digits_acs)
next
  assume "length tn = 10 \<and> list_all (in_class Digit) tn"
  thus "has_matching_rule geniki tn" by (simp add: ten_digits_acs)
next
  assume "length tn = 10 \<and> list_all (in_class Digit) tn"
  thus "detectCourier E tn = Some (ascii ''acs'')" by (simp add: ten_digits_acs)
qed

theorem detectCourier_registry_order_witness:
  "length (ascii ''1234567890'') = 10 \<and> list_all (in_class Digit) (ascii ''1234567890'')
   \<and> has_matching_rule (snd (COURIERS ! 1)) (ascii ''1234567890'')
   \<and> has_matching_rule (snd (COURIERS ! 5)) (ascii ''1234567890'')
   \<and> detectCourier sample_runtime (ascii ''1234567890'') = Some (ascii ''acs'')
   \<and> detectCourier sample_runtime (ascii ''1234567890'') \<noteq> Some (ascii ''geniki'')
   \<and> toUpperCase (sample_runtime\<lparr>upper_other := \<lambda>s. ascii ''SE101046219GR''\<rparr>)
         (trim (0x17F # ascii ''e101046219gr'')) = ascii ''SE101046219GR''
   \<and> detectCourier (sample_runtime\<lparr>upper_other := \<lambda>s. ascii ''SE101046219GR''\<rparr>)
         (0x17F # ascii ''e101046219gr'') = Some (ascii ''elta'')"
proof -
  have h: "length (ascii ''1234567890'') = 10 \<and> list_all (in_class Digit) (ascii ''1234567890'')"
    by (simp add: ascii_def)
  have c: "COURIERS ! 1 = (ascii ''acs'', acs)" "COURIERS ! 5 = (ascii ''geniki'', geniki)"
    "COURIERS ! 0 = (ascii ''elta'', elta)" "0 < length COURIERS"
    by (simp_all add: COURIERS_def)
  have d: "ascii ''acs'' \<noteq> ascii ''geniki''" by (simp add: ascii_def)
  from detectCourier_registry_order [of sample_runtime "ascii ''1234567890''"] h
  have a: "has_matching_rule acs (ascii ''1234567890'') \<and> has_matching_rule geniki (ascii ''1234567890'')
        \<and> detectCourier sample_runtime (ascii ''1234567890'') = Some (ascii ''acs'')"
    by blast
  let ?R = "sample_runtime\<lparr>upper_other := \<lambda>s. ascii ''SE101046219GR''\<rparr>"
  let ?tn = "0x17F # ascii ''e101046219gr''"
  have u: "toUpperCase ?R (trim ?tn) = ascii ''SE101046219GR''"
    by (simp add: toUpperCase_def trim_def is_whitespace_def ascii_def in_alphabet_def
          greek_letter_def)
  have "test (lit ''SE'' @ [(Digit, 9, 9)] @ lit ''GR'') (ascii ''SE101046219GR'')"
    by (simp add: lit_def ascii_def)
  hence m: "has_matching_rule (snd (COURIERS ! 0)) (toUpperCase ?R (trim ?tn))
      \<and> (\<forall>j<0. \<not> has_matching_rule (snd (COURIERS ! j)) (toUpperCase ?R (trim ?tn)))"
    by (simp add: u c has_matching_rule_def elta_def)
  from detectCourier_registry_order [of ?R ?tn] m c(4)
  have "detectCourier ?R ?tn = Some (fst (COURIERS ! 0))" by blast
  with a h c d u show ?thesis by simp
qed


section \<open>Properties of the request handlers\<close>

lemma POST_loop_acc:
  "POST_loop E ns rs w = (rs @ fst (POST_loop E ns [] w), snd (POST_loop E ns [] w))"
proof (induction ns arbitrary: rs w)
  case Nil
  show ?case by simp
next
  case (Cons n ns)
  show ?case
  proof (cases "length (toUpperCase E (trim n)) < 8")
    case True
    thus ?thesis
      using Cons.IH[of "rs @ [invalid_result (toUpperCase E (trim n))]" w]
            Cons.IH[of "[invalid_result (toUpperCase E (trim n))]" w]
      by simp
  next
    case False
    obtain r w' where t: "trackShipment E (toUpperCase E (trim n)) w = (r, w')"
      by (cases "trackShipment E (toUpperCase E (trim n)) w")
    from False t show ?thesis
      using Cons.IH[of "rs @ [r]" w'] Cons.IH[of "[r]" w'] by simp
  qed
qed

lemma trackAll_Nil: "trackAll E [] w = ([], w)"
  by (simp add: trackAll_def)

lemma trackAll_Cons:
  "trackAll E (n # ns) w =
     (fst (trackAll E [n] w) @ fst (trackAll E ns (snd (trackAll E [n] w))),
      snd (trackAll E ns (snd (trackAll E [n] w))))"
proof (cases "length (toUpperCase E (trim n)) < 8")
  case True
  thus ?thesis
    unfolding trackAll_def
    using POST_loop_acc[of E ns "[invalid_result (toUpperCase E (trim n))]" w] by simp
next
  case False
  obtain r w' where t: "trackShipment E (toUpperCase E (trim n)) w = (r, w')"
    by (cases "trackShipment E (toUpperCase E (trim n)) w")
  from False t show ?thesis
    unfolding trackAll_def using POST_loop_acc[of E ns "[r]" w'] by simp
qed

lemma trackAll_single:
  "trackAll E [n] w =
     (if length (toUpperCase E (trim n)) < 8 then ([invalid_result (toUpperCase E (trim n))], w)
      else ([fst (trackShipment E (toUpperCase E (trim n)) w)],
            snd (trackShipment E (toUpperCase E (trim n)) w)))"
  by (simp add: trackAll_def Let_def split: prod.split)

lemma trackAll_single_length: "length (fst (trackAll E [n] w)) = 1"
  by (simp add: trackAll_single)

lemma trackAll_length: "length (fst (trackAll E ns w)) = length ns"
proof (induction ns arbitrary: w)
  case Nil
  show ?case by (simp add: trackAll_Nil)
next
  case (Cons n ns)
  show ?case by (simp add: trackAll_Cons[of E n ns w] trackAll_single_length Cons.IH)
qed

lemma trackAll_nth:
  "i < length ns \<Longrightarrow>
   fst (trackAll E [ns ! i] (snd (trackAll E (take i ns) w))) = [fst (trackAll E ns w) ! i]"
proof (induction ns arbitrary: i w)
  case Nil
  then show ?case by simp
next
  case (Cons n ns)
  obtain r where r: "fst (trackAll E [n] w) = [r]"
    using trackAll_single_length[of E n w] by (cases "fst (trackAll E [n] w)") auto
  show ?case
  proof (cases i)
    case 0
    thus ?thesis by (simp add: trackAll_Nil trackAll_Cons[of E n ns w] r)
  next
    case (Suc k)
    with Cons.prems have k: "k < length ns" by simp
    let ?w1 = "snd (trackAll E [n] w)"
    have "snd (trackAll E (take i (n # ns)) w) = snd (trackAll E (take k ns) ?w1)"
      by (simp add: Suc trackAll_Cons[of E n "take k ns" w])
    moreover have "fst (trackAll E (n # ns) w) ! i = fst (trackAll E ns ?w1) ! k"
      by (simp add: Suc trackAll_Cons[of E n ns w] r)
    ultimately show ?thesis using Cons.IH[OF k, of ?w1] by (simp add: Suc)
  qed
qed


lemma trackAll_append:
  "trackAll E (xs @ ys) w =
     (fst (trackAll E xs w) @ fst (trackAll E ys (snd (trackAll E xs w))),
      snd (trackAll E ys (snd (trackAll E xs w))))"
proof (induction xs arbitrary: w)
  case Nil
  show ?case by (simp add: trackAll_Nil)
next
  case (Cons x xs)
  show ?case
    by (simp add: trackAll_Cons[of E x "xs @ ys" w] trackAll_Cons[of E x xs w] Cons.IH)
qed

lemma trackELTA_fst:
  "fst (trackELTA E tn w) =
     (case fst (fetch_text E tn w) of
        Inl err \<Rightarrow> catch_result (ascii ''elta'') elta tn err
      | Inr text \<Rightarrow>
          (case JSON_parse E (strip_bom text) of
             Inl err \<Rightarrow> catch_result (ascii ''elta'') elta tn err
           | Inr data \<Rightarrow> elta_body E tn data))"
  by (simp add: trackELTA_def trackELTA_try_def split: prod.split sum.split)

lemma trackELTA_snd: "snd (trackELTA E tn w) = snd (fetch_text E tn w)"
  by (simp add: trackELTA_def trackELTA_try_def split: prod.split sum.split)

lemma trackBoxNow_fst:
  "fst (trackBoxNow E tn w) =
     (case fst (fetch_json E tn w) of
        Inl err \<Rightarrow> catch_result (ascii ''box_now'') box_now tn err
      | Inr data \<Rightarrow> boxnow_body E tn data)"
  by (simp add: trackBoxNow_def trackBoxNow_try_def split: prod.split sum.split)

lemma trackBoxNow_snd: "snd (trackBoxNow E tn w) = snd (fetch_json E tn w)"
  by (simp add: trackBoxNow_def trackBoxNow_try_def split: prod.split sum.split)

lemma trackShipment_fst_stateless:
  assumes "\<forall>tn w1 w2. fst (fetch_text E tn w1) = fst (fetch_text E tn w2)"
    and "\<forall>tn w1 w2. fst (fetch_json E tn w1) = fst (fetch_json E tn w2)"
  shows "fst (trackShipment E n w1) = fst (trackShipment E n w2)"
proof -
  from assms(1) have "fst (fetch_text E n w1) = fst (fetch_text E n w2)" by blast
  hence "fst (trackELTA E n w1) = fst (trackELTA E n w2)"
    by (simp only: trackELTA_fst)
  moreover from assms(2) have "fst (fetch_json E n w1) = fst (fetch_json E n w2)" by blast
  hence "fst (trackBoxNow E n w1) = fst (trackBoxNow E n w2)"
    by (simp only: trackBoxNow_fst)
  ultimately show ?thesis
    by (simp add: trackShipment_def split: option.split)
qed

lemma trackAll_single_stateless:
  assumes "\<forall>tn w1 w2. fst (fetch_text E tn w1) = fst (fetch_text E tn w2)"
    and "\<forall>tn w1 w2. fst (fetch_json E tn w1) = fst (fetch_json E tn w2)"
  shows "fst (trackAll E [n] w1) = fst (trackAll E [n] w2)"
  using trackShipment_fst_stateless[OF assms, of "toUpperCase E (trim n)" w1 w2]
  by (simp add: trackAll_single)

text \<open>
  Claim C3. For every batch of tracking-number strings the orchestrator returns one
  result per number: the output is as long as the input, and the i-th result is the
  result of the i-th number processed alone in the world the earlier numbers left
  behind. The program carries nothing else from one number to the next: with carriers
  whose answer to a request does not depend on the world, the i-th result is the result
  of the i-th number alone in any world, whatever happened to the other numbers. On a
  non-empty batch \<open>POST\<close> answers with exactly these results.
\<close>

theorem trackAll_one_result_per_number:
  "length (fst (trackAll E ns w)) = length ns
   \<and> (\<forall>i<length ns.
        [fst (trackAll E ns w) ! i] = fst (trackAll E [ns ! i] (snd (trackAll E (take i ns) w))))
   \<and> ((\<forall>tn w1 w2. fst (fetch_text E tn w1) = fst (fetch_text E tn w2))
       \<and> (\<forall>tn w1 w2. fst (fetch_json E tn w1) = fst (fetch_json E tn w2))
       \<longrightarrow> (\<forall>i<length ns. \<forall>w0. [fst (trackAll E ns w) ! i] = fst (trackAll E [ns ! i] w0)))
   \<and> (ns \<noteq> [] \<longrightarrow> fst (POST E (Some ns) w) = Results (fst (trackAll E ns w)))"
proof (intro conjI allI impI)
  show "length (fst (trackAll E ns w)) = length ns" by (rule trackAll_length)
next
  fix i assume "i < length ns"
  thus "[fst (trackAll E ns w) ! i] = fst (trackAll E [ns ! i] (snd (trackAll E (take i ns) w)))"
    by (simp add: trackAll_nth)
next
  fix i w0
  assume st: "(\<forall>tn w1 w2. fst (fetch_text E tn w1) = fst (fetch_text E tn w2))
       \<and> (\<forall>tn w1 w2. fst (fetch_json E tn w1) = fst (fetch_json E tn w2))"
    and i: "i < length ns"
  from st have "fst (trackAll E [ns ! i] (snd (trackAll E (take i ns) w))) = fst (trackAll E [ns ! i] w0)"
    by (intro trackAll_single_stateless) simp_all
  with trackAll_nth[OF i, of E w] show "[fst (trackAll E ns w) ! i] = fst (trackAll E [ns ! i] w0)"
    by simp
next
  assume "ns \<noteq> []"
  thus "fst (POST E (Some ns) w) = Results (fst (trackAll E ns w))"
    by (cases ns) (simp_all add: POST_def split: prod.split)
qed

lemma length_trim_le: "length (trim s) \<le> length s"
proof -
  have "length (trim s) \<le> length (dropWhile is_whitespace s)"
    unfolding trim_def using length_dropWhile_le[of is_whitespace "rev (dropWhile is_whitespace s)"]
    by simp
  also have "\<dots> \<le> length s" by (rule length_dropWhile_le)
  finally show ?thesis .
qed

text \<open>
  Claim C4. A number whose trimmed, upper-cased form is shorter than 8 code units
  yields, at its position of the batch, the result with \<open>success = false\<close> and the
  message "Invalid tracking number format", for every runtime (no detection, no
  carrier); and the world is the same after that number as before it: no network call
  was made.
\<close>

theorem short_number_short_circuits:
  "i < length ns \<Longrightarrow> length (toUpperCase E (trim (ns ! i))) < 8 \<Longrightarrow>
   fst (trackAll E ns w) ! i = invalid_result (toUpperCase E (trim (ns ! i)))
   \<and> success (fst (trackAll E ns w) ! i) = False
   \<and> errorMessage (fst (trackAll E ns w) ! i) = Some (ascii ''Invalid tracking number format'')
   \<and> snd (trackAll E (take (Suc i) ns) w) = snd (trackAll E (take i ns) w)"
proof -
  assume i: "i < length ns" and short: "length (toUpperCase E (trim (ns ! i))) < 8"
  let ?w = "snd (trackAll E (take i ns) w)"
  from short have one: "trackAll E [ns ! i] ?w = ([invalid_result (toUpperCase E (trim (ns ! i)))], ?w)"
    by (simp add: trackAll_single)
  with trackAll_nth[OF i, of E w]
  have r: "fst (trackAll E ns w) ! i = invalid_result (toUpperCase E (trim (ns ! i)))" by simp
  from i have "take (Suc i) ns = take i ns @ [ns ! i]" by (rule take_Suc_conv_app_nth)
  hence "snd (trackAll E (take (Suc i) ns) w) = snd (trackAll E [ns ! i] ?w)"
    by (simp add: trackAll_append)
  with one have "snd (trackAll E (take (Suc i) ns) w) = ?w" by simp
  with r show ?thesis by (simp add: invalid_result_def)
qed

lemma upper_case_stable_undetected:
  assumes "length u < 8" and "toUpperCase E (trim u) = trim u"
  shows "detectCourier E u = None"
proof -
  from assms(1) length_trim_le[of u] have "length (trim u) < 10" by simp
  with assms(2) have "length (toUpperCase E (trim u)) < 10" by simp
  thus ?thesis unfolding detectCourier_def by (rule short_undetected)
qed

text \<open>
  Claim C10. The single-number \<open>GET\<close> handler neither trims nor checks the length: for a
  provided (non-empty) number whose upper-cased form is shorter than 8 code units it
  answers with the detection-failure result, carrying the untrimmed upper-cased number
  and the message "Could not detect courier from tracking number format", and leaves the
  world untouched; the batch orchestrator answers a number whose normalised form is that
  short with the "Invalid tracking number format" result instead. What is used of the
  runtime is that the detector's own upper-casing leaves the trimmed, already
  upper-cased number as it is, as the Unicode conversion does.
\<close>

theorem GET_short_number_not_detected:
  "tn \<noteq> [] \<Longrightarrow> length (toUpperCase E tn) < 8 \<Longrightarrow>
   toUpperCase E (trim (toUpperCase E tn)) = trim (toUpperCase E tn) \<Longrightarrow>
   GET E (Some tn) w = (Result (not_detected_result (toUpperCase E tn)), w)
   \<and> success (not_detected_result (toUpperCase E tn)) = False
   \<and> trackingNumber (not_detected_result (toUpperCase E tn)) = toUpperCase E tn
   \<and> errorMessage (not_detected_result (toUpperCase E tn))
       = Some (ascii ''Could not detect courier from tracking number format'')
   \<and> errorMessage (not_detected_result (toUpperCase E tn))
       \<noteq> Some (ascii ''Invalid tracking number format'')
   \<and> (length (toUpperCase E (trim tn)) < 8
       \<longrightarrow> fst (trackAll E [tn] w) = [invalid_result (toUpperCase E (trim tn))])"
proof -
  assume ne: "tn \<noteq> []" and short: "length (toUpperCase E tn) < 8"
    and stable: "toUpperCase E (trim (toUpperCase E tn)) = trim (toUpperCase E tn)"
  from short stable have "detectCourier E (toUpperCase E tn) = None"
    by (rule upper_case_stable_undetected)
  with ne have g: "GET E (Some tn) w = (Result (not_detected_result (toUpperCase E tn)), w)"
    by (simp add: GET_def trackShipment_def)
  have b: "length (toUpperCase E (trim tn)) < 8
       \<longrightarrow> fst (trackAll E [tn] w) = [invalid_result (toUpperCase E (trim tn))]"
    by (simp add: trackAll_single)
  have "ascii ''Could not detect courier from tracking number format''
        \<noteq> ascii ''Invalid tracking number format''" by (simp add: ascii_def)
  with g b show ?thesis by (simp add: not_detected_result_def)
qed

theorem trackAll_one_result_per_number_witness:
  "length (fst (trackAll sample_runtime [ascii ''ab'', ascii ''BN12345678''] 0)) = 2
   \<and> [fst (trackAll sample_runtime [ascii ''ab'', ascii ''BN12345678''] 0) ! 1]
       = fst (trackAll sample_runtime [ascii ''BN12345678''] 5)
   \<and> fst (POST sample_runtime (Some [ascii ''ab'', ascii ''BN12345678'']) 0)
       = Results (fst (trackAll sample_runtime [ascii ''ab'', ascii ''BN12345678''] 0))"
proof -
  let ?ns = "[ascii ''ab'', ascii ''BN12345678'']"
  note T = trackAll_one_result_per_number [of sample_runtime ?ns 0]
  have st: "(\<forall>tn w1 w2. fst (fetch_text sample_runtime tn w1) = fst (fetch_text sample_runtime tn w2))
       \<and> (\<forall>tn w1 w2. fst (fetch_json sample_runtime tn w1) = fst (fetch_json sample_runtime tn w2))"
    by (simp add: sample_runtime_def)
  from T have a: "length (fst (trackAll sample_runtime ?ns 0)) = length ?ns" by (rule conjunct1)
  from T st have "\<forall>i<length ?ns. \<forall>w0.
      [fst (trackAll sample_runtime ?ns 0) ! i] = fst (trackAll sample_runtime [?ns ! i] w0)"
    by blast
  hence q: "i < length ?ns \<Longrightarrow>
      [fst (trackAll sample_runtime ?ns 0) ! i] = fst (trackAll sample_runtime [?ns ! i] w0)" for i w0
    by blast
  have b: "[fst (trackAll sample_runtime ?ns 0) ! 1] = fst (trackAll sample_runtime [?ns ! 1] 5)"
    by (rule q) simp
  have "?ns \<noteq> []" by simp
  with T have c: "fst (POST sample_runtime (Some ?ns) 0) = Results (fst (trackAll sample_runtime ?ns 0))"
    by blast
  from a b c show ?thesis by simp
qed

lemma normalize_ab: "toUpperCase E (trim (ascii '' ab '')) = ascii ''AB''"
  by (simp add: ascii_def toUpperCase_def upper_unit_def trim_def is_whitespace_def
        in_alphabet_def)

text \<open>
  The runtime decides the length of a number outside the alphabet: where upper-casing
  turns four sharp s into "SSSSSSSS", the batch does not short-circuit on them.
\<close>

lemma sharp_s_not_short:
  "fst (trackAll (sample_runtime\<lparr>upper_other := \<lambda>s. ascii ''SSSSSSSS''\<rparr>)
          [[0xDF, 0xDF, 0xDF, 0xDF]] 0)
     = [not_detected_result (ascii ''SSSSSSSS'')]"
proof -
  let ?R = "sample_runtime\<lparr>upper_other := \<lambda>s. ascii ''SSSSSSSS''\<rparr>"
  have u: "toUpperCase ?R (trim [0xDF, 0xDF, 0xDF, 0xDF]) = ascii ''SSSSSSSS''"
    by (simp add: toUpperCase_def trim_def is_whitespace_def in_alphabet_def greek_letter_def)
  have "length (toUpperCase ?R (trim (ascii ''SSSSSSSS''))) \<le> length (ascii ''SSSSSSSS'')"
    by (simp add: toUpperCase_def trim_def is_whitespace_def in_alphabet_def ascii_def)
  hence "length (toUpperCase ?R (trim (ascii ''SSSSSSSS''))) < 10" by (simp add: ascii_def)
  hence "detectCourier ?R (ascii ''SSSSSSSS'') = None"
    unfolding detectCourier_def by (rule short_undetected)
  moreover have "\<not> length (ascii ''SSSSSSSS'') < 8" by (simp add: ascii_def)
  ultimately show ?thesis
    by (simp add: trackAll_single u trackShipment_def)
qed

theorem short_number_short_circuits_witness:
  "(0::nat) < length [ascii '' ab '']
   \<and> length (toUpperCase sample_runtime (trim ([ascii '' ab ''] ! 0))) < 8
   \<and> fst (trackAll sample_runtime [ascii '' ab ''] 0) ! 0 = invalid_result (ascii ''AB'')
   \<and> snd (trackAll sample_runtime [ascii '' ab ''] 0) = 0"
proof -
  have h1: "(0::nat) < length [ascii '' ab '']" by simp
  have h2: "length (toUpperCase sample_runtime (trim ([ascii '' ab ''] ! 0))) < 8"
    by (simp add: normalize_ab) (simp add: ascii_def)
  from short_number_short_circuits [OF h1 h2, of 0] h1 h2
  show ?thesis by (simp add: normalize_ab trackAll_Nil)
qed

theorem GET_short_number_not_detected_witness:
  "ascii '' ab '' \<noteq> [] \<and> length (toUpperCase sample_runtime (ascii '' ab '')) < 8
   \<and> toUpperCase sample_runtime (trim (toUpperCase sample_runtime (ascii '' ab '')))
       = trim (toUpperCase sample_runtime (ascii '' ab ''))
   \<and> GET sample_runtime (Some (ascii '' ab '')) 0
       = (Result (not_detected_result (ascii '' AB '')), 0)
   \<and> fst (trackAll sample_runtime [ascii '' ab ''] 0) = [invalid_result (ascii ''AB'')]"
proof -
  have u: "toUpperCase sample_runtime (ascii '' ab '') = ascii '' AB ''"
    by (simp add: ascii_def toUpperCase_def upper_unit_def in_alphabet_def)
  have h1: "ascii '' ab '' \<noteq> []" by (simp add: ascii_def)
  have h2: "length (toUpperCase sample_runtime (ascii '' ab '')) < 8"
    unfolding u by (simp add: ascii_def)
  have h3: "toUpperCase sample_runtime (trim (toUpperCase sample_runtime (ascii '' ab '')))
       = trim (toUpperCase sample_runtime (ascii '' ab ''))"
    unfolding u
    by (simp add: ascii_def toUpperCase_def upper_unit_def trim_def is_whitespace_def
          in_alphabet_def)
  have h4: "length (toUpperCase sample_runtime (trim (ascii '' ab ''))) < 8"
    by (simp add: normalize_ab) (simp add: ascii_def)
  from GET_short_number_not_detected [OF h1 h2 h3, of 0] h1 h2 h3 h4
  show ?thesis by (simp add: u normalize_ab)
qed


section \<open>Properties of the fetchers\<close>

lemma sample_boxnow_fetch:
  "fst (fetch_json sample_runtime tn w) =
     Inr \<lparr>b_data = Some [\<lparr>p_events = Some [\<lparr>e_createTime = Some (ascii ''2024-02-01T10:00:00.000Z''),
                                                e_locationDisplayName = Some (ascii ''ATHENS''),
                                                e_type = Some (ascii ''in-depot'')\<rparr>],
                             p_state = Some (ascii ''in-depot'')\<rparr>]\<rparr>"
  by (simp add: sample_runtime_def)

lemma translate_in_depot: "translateStatus E (ascii ''in-depot'') = ascii ''In Depot''"
proof -
  have l: "toLowerCase E (ascii ''in-depot'') = ascii ''in-depot''"
    by (simp add: toLowerCase_basic_latin ascii_def lower_unit_def)
  have f: "map (\<lambda>e. entry_matches E (fst e) (ascii ''in-depot'')) STATUS_TRANSLATIONS
        = [False, False, False, False, False, False, True, False]"
    by (simp add: match_flags lowered_keys ascii_def)
  have "entry_matches E (fst (STATUS_TRANSLATIONS ! 6)) (ascii ''in-depot'')
      \<and> (\<forall>j<6. \<not> entry_matches E (fst (STATUS_TRANSLATIONS ! j)) (ascii ''in-depot''))"
    by (simp add: flags_nth[OF f] STATUS_TRANSLATIONS_length eval_nat_numeral All_less_Suc)
  hence "translate_loop E STATUS_TRANSLATIONS (ascii ''in-depot'') (ascii ''in-depot'')
         = snd (STATUS_TRANSLATIONS ! 6)"
    by (intro translate_loop_first_match) (simp_all add: STATUS_TRANSLATIONS_length)
  thus ?thesis by (simp add: translateStatus_def l STATUS_TRANSLATIONS_def)
qed

lemma category_in_depot: "getStatusCategory E (ascii ''In Depot'') = unknown"
proof -
  have "toLowerCase E (ascii ''In Depot'') = ascii ''in depot''"
    by (simp add: toLowerCase_basic_latin ascii_def lower_unit_def)
  thus ?thesis by (simp add: getStatusCategory_def) (simp add: ascii_def)
qed

lemma sample_boxnow_result:
  "status (fst (trackBoxNow sample_runtime tn w)) = ascii ''In Depot''"
  "statusCategory (fst (trackBoxNow sample_runtime tn w)) = in_transit"
  "success (fst (trackBoxNow sample_runtime tn w)) = True"
proof -
  have ne: "ascii ''in-depot'' \<noteq> []" "ascii ''in-depot'' \<noteq> ascii ''delivered''"
    by (simp_all add: ascii_def)
  show "status (fst (trackBoxNow sample_runtime tn w)) = ascii ''In Depot''"
    by (simp add: trackBoxNow_fst sample_boxnow_fetch boxnow_body_def boxnow_found_def
          or_else_def ne translate_in_depot Let_def)
  show "statusCategory (fst (trackBoxNow sample_runtime tn w)) = in_transit"
    by (simp add: trackBoxNow_fst sample_boxnow_fetch boxnow_body_def boxnow_found_def
          or_else_def ne Let_def)
  show "success (fst (trackBoxNow sample_runtime tn w)) = True"
    by (simp add: trackBoxNow_fst sample_boxnow_fetch boxnow_body_def boxnow_found_def Let_def)
qed

text \<open>
  Claim C1, as stated, fails. Box Now answers with one parcel in state \<open>in-depot\<close>: the
  status is its translation "In Depot", which \<open>getStatusCategory\<close> classifies as
  \<open>unknown\<close>, but the result's category is \<open>in_transit\<close>.
\<close>

theorem boxnow_category_not_classified:
  "success (fst (trackBoxNow sample_runtime (ascii ''BN12345678'') 0)) = True
   \<and> status (fst (trackBoxNow sample_runtime (ascii ''BN12345678'') 0))
       = translateStatus sample_runtime (ascii ''in-depot'')
   \<and> getStatusCategory sample_runtime (status (fst (trackBoxNow sample_runtime (ascii ''BN12345678'') 0)))
       = unknown
   \<and> statusCategory (fst (trackBoxNow sample_runtime (ascii ''BN12345678'') 0)) = in_transit
   \<and> statusCategory (fst (trackBoxNow sample_runtime (ascii ''BN12345678'') 0))
       \<noteq> getStatusCategory sample_runtime (status (fst (trackBoxNow sample_runtime (ascii ''BN12345678'') 0)))"
  by (simp add: sample_boxnow_result translate_in_depot category_in_depot)

text \<open>
  Claim C1, amended. When the Box Now response holds at least one parcel, the status is
  the translation of the first parcel's \<open>state\<close> (the empty string when it has none),
  and the category is \<open>delivered\<close> when that state is exactly the string \<open>delivered\<close>
  and \<open>in_transit\<close> otherwise: the status normaliser's classification is not applied,
  and the category is never \<open>unknown\<close> or \<open>created\<close>.
\<close>

theorem boxnow_status_from_state:
  "fst (fetch_json E tn w) = Inr data \<and> b_data data = Some (parcel # rest) \<longrightarrow>
     success (fst (trackBoxNow E tn w)) = True
     \<and> status (fst (trackBoxNow E tn w)) = translateStatus E (or_else (p_state parcel) [])
     \<and> statusCategory (fst (trackBoxNow E tn w))
         = (if or_else (p_state parcel) [] = ascii ''delivered'' then delivered else in_transit)
     \<and> statusCategory (fst (trackBoxNow E tn w)) \<noteq> unknown
     \<and> statusCategory (fst (trackBoxNow E tn w)) \<noteq> created"
  by (simp add: trackBoxNow_fst boxnow_body_def boxnow_found_def Let_def)

theorem boxnow_status_from_state_witness:
  "status (fst (trackBoxNow sample_runtime (ascii ''BN12345678'') 0)) = ascii ''In Depot''
   \<and> statusCategory (fst (trackBoxNow sample_runtime (ascii ''BN12345678'') 0)) = in_transit"
proof -
  let ?parcel = "\<lparr>p_events = Some [\<lparr>e_createTime = Some (ascii ''2024-02-01T10:00:00.000Z''),
                                     e_locationDisplayName = Some (ascii ''ATHENS''),
                                     e_type = Some (ascii ''in-depot'')\<rparr>],
                  p_state = Some (ascii ''in-depot'')\<rparr>"
  have h: "fst (fetch_json sample_runtime (ascii ''BN12345678'') 0) = Inr \<lparr>b_data = Some [?parcel]\<rparr>
           \<and> b_data \<lparr>b_data = Some [?parcel]\<rparr> = Some (?parcel # [])"
    by (simp add: sample_boxnow_fetch)
  have ne: "ascii ''in-depot'' \<noteq> []" "ascii ''in-depot'' \<noteq> ascii ''delivered''"
    by (simp_all add: ascii_def)
  from boxnow_status_from_state [of sample_runtime "ascii ''BN12345678''" 0
      "\<lparr>b_data = Some [?parcel]\<rparr>" ?parcel "[]"] h
  show ?thesis by (simp add: or_else_def ne translate_in_depot)
qed

lemma catch_result_fields:
  "success (catch_result code cfg tn err) = False"
  "statusCategory (catch_result code cfg tn err) = error"
  "events (catch_result code cfg tn err) = []"
  "latestEvent (catch_result code cfg tn err) = None"
  "errorMessage (catch_result code cfg tn err) = Some (caught_message err)"
  by (simp_all add: catch_result_def)

lemma caught_message_nonempty: "err \<noteq> ErrorObj [] \<Longrightarrow> caught_message err \<noteq> []"
  by (cases err) (simp_all add: caught_message_def ascii_def)

text \<open>
  Claim C5, as stated, fails in its last part. When the network call rejects with an
  \<open>Error\<close> whose message is the empty string, both fetchers return the failure result
  with an empty \<open>errorMessage\<close>: the handler copies \<open>error.message\<close> as it is.
\<close>

theorem fetcher_empty_error_message:
  "fst (fetch_json (failing_runtime []) (ascii ''BN12345678'') 0) = Inl (ErrorObj [])
   \<and> success (fst (trackBoxNow (failing_runtime []) (ascii ''BN12345678'') 0)) = False
   \<and> errorMessage (fst (trackBoxNow (failing_runtime []) (ascii ''BN12345678'') 0)) = Some []
   \<and> fst (fetch_text (failing_runtime []) (ascii ''SE101046219GR'') 0) = Inl (ErrorObj [])
   \<and> errorMessage (fst (trackELTA (failing_runtime []) (ascii ''SE101046219GR'') 0)) = Some []"
  by (simp add: trackBoxNow_fst trackELTA_fst failing_runtime_def catch_result_fields
        caught_message_def)

text \<open>
  Claim C5, amended. A fetcher never raises: whenever the network call rejects, or (for
  ELTA) the parsing of the body throws, it returns a result with \<open>success = false\<close>,
  category \<open>error\<close>, no events, and an \<open>errorMessage\<close> that is the message of the thrown
  \<open>Error\<close>, or "Unknown error" when the thrown value is not an \<open>Error\<close>; the message is
  non-empty unless the thrown \<open>Error\<close> carries the empty message.
\<close>

theorem fetchers_catch_failures:
  "((fst (fetch_text E tn w) = Inl err
      \<or> (\<exists>text. fst (fetch_text E tn w) = Inr text \<and> JSON_parse E (strip_bom text) = Inl err))
     \<longrightarrow> success (fst (trackELTA E tn w)) = False
         \<and> statusCategory (fst (trackELTA E tn w)) = error
         \<and> events (fst (trackELTA E tn w)) = []
         \<and> errorMessage (fst (trackELTA E tn w)) = Some (caught_message err)
         \<and> (err \<noteq> ErrorObj [] \<longrightarrow> errorMessage (fst (trackELTA E tn w)) \<noteq> Some []))
   \<and> (fst (fetch_json E tn w) = Inl err
     \<longrightarrow> success (fst (trackBoxNow E tn w)) = False
         \<and> statusCategory (fst (trackBoxNow E tn w)) = error
         \<and> events (fst (trackBoxNow E tn w)) = []
         \<and> errorMessage (fst (trackBoxNow E tn w)) = Some (caught_message err)
         \<and> (err \<noteq> ErrorObj [] \<longrightarrow> errorMessage (fst (trackBoxNow E tn w)) \<noteq> Some []))
   \<and> caught_message NonError = ascii ''Unknown error''
   \<and> caught_message (ErrorObj m) = m"
proof (intro conjI impI)
  assume a: "fst (fetch_text E tn w) = Inl err
      \<or> (\<exists>text. fst (fetch_text E tn w) = Inr text \<and> JSON_parse E (strip_bom text) = Inl err)"
  hence r: "fst (trackELTA E tn w) = catch_result (ascii ''elta'') elta tn err"
    by (auto simp: trackELTA_fst)
  show "success (fst (trackELTA E tn w)) = False"
    "statusCategory (fst (trackELTA E tn w)) = error"
    "events (fst (trackELTA E tn w)) = []"
    "errorMessage (fst (trackELTA E tn w)) = Some (caught_message err)"
    by (simp_all add: r catch_result_fields)
  assume "err \<noteq> ErrorObj []"
  thus "errorMessage (fst (trackELTA E tn w)) \<noteq> Some []"
    by (simp add: r catch_result_fields caught_message_nonempty)
next
  assume a: "fst (fetch_json E tn w) = Inl err"
  hence r: "fst (trackBoxNow E tn w) = catch_result (ascii ''box_now'') box_now tn err"
    by (simp add: trackBoxNow_fst)
  show "success (fst (trackBoxNow E tn w)) = False"
    "statusCategory (fst (trackBoxNow E tn w)) = error"
    "events (fst (trackBoxNow E tn w)) = []"
    "errorMessage (fst (trackBoxNow E tn w)) = Some (caught_message err)"
    by (simp_all add: r catch_result_fields)
  assume "err \<noteq> ErrorObj []"
  thus "errorMessage (fst (trackBoxNow E tn w)) \<noteq> Some []"
    by (simp add: r catch_result_fields caught_message_nonempty)
next
  show "caught_message NonError = ascii ''Unknown error''" by (simp add: caught_message_def)
  show "caught_message (ErrorObj m) = m" by (simp add: caught_message_def)
qed

theorem fetchers_catch_failures_witness:
  "fst (fetch_json (failing_runtime (ascii ''fetch failed'')) (ascii ''BN12345678'') 0)
     = Inl (ErrorObj (ascii ''fetch failed''))
   \<and> success (fst (trackBoxNow (failing_runtime (ascii ''fetch failed'')) (ascii ''BN12345678'') 0))
       = False
   \<and> errorMessage (fst (trackBoxNow (failing_runtime (ascii ''fetch failed'')) (ascii ''BN12345678'') 0))
       = Some (ascii ''fetch failed'')
   \<and> JSON_parse (sample_runtime\<lparr>JSON_parse := \<lambda>text. Inl NonError\<rparr>)
         (strip_bom (0xFEFF # ascii ''ok'')) = Inl NonError
   \<and> statusCategory (fst (trackELTA (sample_runtime\<lparr>JSON_parse := \<lambda>text. Inl NonError\<rparr>)
         (ascii ''SE101046219GR'') 0)) = error
   \<and> errorMessage (fst (trackELTA (sample_runtime\<lparr>JSON_parse := \<lambda>text. Inl NonError\<rparr>)
         (ascii ''SE101046219GR'') 0)) = Some (ascii ''Unknown error'')"
proof -
  let ?E = "failing_runtime (ascii ''fetch failed'')"
  let ?err = "ErrorObj (ascii ''fetch failed'')"
  let ?P = "sample_runtime\<lparr>JSON_parse := \<lambda>text. Inl NonError\<rparr>"
  have h1: "fst (fetch_json ?E (ascii ''BN12345678'') 0) = Inl ?err"
    by (simp add: failing_runtime_def)
  have h2: "fst (fetch_text ?P (ascii ''SE101046219GR'') 0) = Inr (0xFEFF # ascii ''ok'')"
    "JSON_parse ?P (strip_bom (0xFEFF # ascii ''ok'')) = Inl NonError"
    by (simp_all add: sample_runtime_def)
  from fetchers_catch_failures [of ?E "ascii ''BN12345678''" 0 ?err] h1
  have b: "success (fst (trackBoxNow ?E (ascii ''BN12345678'') 0)) = False
     \<and> errorMessage (fst (trackBoxNow ?E (ascii ''BN12345678'') 0)) = Some (caught_message ?err)"
    by blast
  from fetchers_catch_failures [of ?P "ascii ''SE101046219GR''" 0 NonError] h2
  have e: "statusCategory (fst (trackELTA ?P (ascii ''SE101046219GR'') 0)) = error
     \<and> errorMessage (fst (trackELTA ?P (ascii ''SE101046219GR'') 0)) = Some (caught_message NonError)"
    by blast
  from b e h1 h2 show ?thesis by (simp add: caught_message_def)
qed

lemma not_found_result_fields:
  "success (not_found_result code cfg tn) = True"
  "status (not_found_result code cfg tn) = ascii ''Not Found''"
  "statusCategory (not_found_result code cfg tn) = unknown"
  "events (not_found_result code cfg tn) = []"
  "latestEvent (not_found_result code cfg tn) = None"
  "errorMessage (not_found_result code cfg tn) = None"
  by (simp_all add: not_found_result_def)

text \<open>
  Claim C6. When the carrier answers and reports no record, the fetcher returns
  \<open>success = true\<close>, status "Not Found", category \<open>unknown\<close> and no events, with no
  error message. ELTA reports no record when the top-level \<open>status\<close> is not 1, when the
  \<open>result\<close> has no entry for the tracking number, or when that entry's \<open>status\<close> is not
  1; Box Now when \<open>data\<close> is absent or empty.
\<close>

theorem fetchers_confirmed_absence:
  "(fst (fetch_text E tn w) = Inr text \<and> JSON_parse E (strip_bom text) = Inr data
      \<and> (d_status data \<noteq> Some 1 \<or> elta_lookup data tn = None
          \<or> (\<exists>trackingData. elta_lookup data tn = Some trackingData
                \<and> s_status trackingData \<noteq> Some 1))
     \<longrightarrow> success (fst (trackELTA E tn w)) = True
         \<and> status (fst (trackELTA E tn w)) = ascii ''Not Found''
         \<and> statusCategory (fst (trackELTA E tn w)) = unknown
         \<and> events (fst (trackELTA E tn w)) = []
         \<and> errorMessage (fst (trackELTA E tn w)) = None)
   \<and> (fst (fetch_json E tn w) = Inr bdata \<and> (b_data bdata = None \<or> b_data bdata = Some [])
     \<longrightarrow> success (fst (trackBoxNow E tn w)) = True
         \<and> status (fst (trackBoxNow E tn w)) = ascii ''Not Found''
         \<and> statusCategory (fst (trackBoxNow E tn w)) = unknown
         \<and> events (fst (trackBoxNow E tn w)) = []
         \<and> errorMessage (fst (trackBoxNow E tn w)) = None)"
proof (intro conjI impI)
  assume a: "fst (fetch_text E tn w) = Inr text \<and> JSON_parse E (strip_bom text) = Inr data
      \<and> (d_status data \<noteq> Some 1 \<or> elta_lookup data tn = None
          \<or> (\<exists>trackingData. elta_lookup data tn = Some trackingData
                \<and> s_status trackingData \<noteq> Some 1))"
  hence "elta_body E tn data = not_found_result (ascii ''elta'') elta tn"
    by (auto simp: elta_body_def)
  with a have r: "fst (trackELTA E tn w) = not_found_result (ascii ''elta'') elta tn"
    by (simp add: trackELTA_fst)
  show "success (fst (trackELTA E tn w)) = True"
    "status (fst (trackELTA E tn w)) = ascii ''Not Found''"
    "statusCategory (fst (trackELTA E tn w)) = unknown"
    "events (fst (trackELTA E tn w)) = []"
    "errorMessage (fst (trackELTA E tn w)) = None"
    by (simp_all add: r not_found_result_fields)
next
  assume a: "fst (fetch_json E tn w) = Inr bdata \<and> (b_data bdata = None \<or> b_data bdata = Some [])"
  hence "boxnow_body E tn bdata = not_found_result (ascii ''box_now'') box_now tn"
    by (auto simp: boxnow_body_def)
  with a have r: "fst (trackBoxNow E tn w) = not_found_result (ascii ''box_now'') box_now tn"
    by (simp add: trackBoxNow_fst)
  show "success (fst (trackBoxNow E tn w)) = True"
    "status (fst (trackBoxNow E tn w)) = ascii ''Not Found''"
    "statusCategory (fst (trackBoxNow E tn w)) = unknown"
    "events (fst (trackBoxNow E tn w)) = []"
    "errorMessage (fst (trackBoxNow E tn w)) = None"
    by (simp_all add: r not_found_result_fields)
qed


lemma sample_elta_parse:
  "fst (fetch_text sample_runtime tn w) = Inr (0xFEFF # ascii ''ok'')"
  "JSON_parse sample_runtime (strip_bom (0xFEFF # ascii ''ok'')) =
     Inr \<lparr>d_status = Some 1,
          d_result = Some [(ascii ''SE101046219GR'',
                            \<lparr>s_status = Some 1, s_result = Some [sample_event]\<rparr>)]\<rparr>"
  by (simp_all add: sample_runtime_def strip_bom_def)

theorem fetchers_confirmed_absence_witness:
  "elta_lookup \<lparr>d_status = Some 1,
                 d_result = Some [(ascii ''SE101046219GR'',
                                   \<lparr>s_status = Some 1, s_result = Some [sample_event]\<rparr>)]\<rparr>
               (ascii ''SE999999999GR'') = None
   \<and> success (fst (trackELTA sample_runtime (ascii ''SE999999999GR'') 0)) = True
   \<and> status (fst (trackELTA sample_runtime (ascii ''SE999999999GR'') 0)) = ascii ''Not Found''
   \<and> statusCategory (fst (trackELTA sample_runtime (ascii ''SE999999999GR'') 0)) = unknown
   \<and> events (fst (trackELTA sample_runtime (ascii ''SE999999999GR'') 0)) = []
   \<and> status (fst (trackBoxNow (sample_runtime\<lparr>fetch_json := \<lambda>tn w. (Inr \<lparr>b_data = Some []\<rparr>, Suc w)\<rparr>)
         (ascii ''BN12345678'') 0)) = ascii ''Not Found''
   \<and> success (fst (trackBoxNow (sample_runtime\<lparr>fetch_json := \<lambda>tn w. (Inr \<lparr>b_data = Some []\<rparr>, Suc w)\<rparr>)
         (ascii ''BN12345678'') 0)) = True"
proof -
  let ?data = "\<lparr>d_status = Some 1,
                 d_result = Some [(ascii ''SE101046219GR'',
                                   \<lparr>s_status = Some 1, s_result = Some [sample_event]\<rparr>)]\<rparr>"
  let ?B = "sample_runtime\<lparr>fetch_json := \<lambda>tn w. (Inr \<lparr>b_data = Some []\<rparr>, Suc w)\<rparr>"
  have l: "elta_lookup ?data (ascii ''SE999999999GR'') = None"
    by (simp add: elta_lookup_def ascii_def)
  have hb: "fst (fetch_json ?B (ascii ''BN12345678'') 0) = Inr \<lparr>b_data = Some []\<rparr>"
    by simp
  from fetchers_confirmed_absence [of sample_runtime "ascii ''SE999999999GR''" 0
      "0xFEFF # ascii ''ok''" ?data] sample_elta_parse l
  have e: "success (fst (trackELTA sample_runtime (ascii ''SE999999999GR'') 0)) = True
     \<and> status (fst (trackELTA sample_runtime (ascii ''SE999999999GR'') 0)) = ascii ''Not Found''
     \<and> statusCategory (fst (trackELTA sample_runtime (ascii ''SE999999999GR'') 0)) = unknown
     \<and> events (fst (trackELTA sample_runtime (ascii ''SE999999999GR'') 0)) = []"
    by blast
  from fetchers_confirmed_absence [where E = ?B and tn = "ascii ''BN12345678''" and w = 0
      and bdata = "\<lparr>b_data = Some []\<rparr>"] hb
  have b: "status (fst (trackBoxNow ?B (ascii ''BN12345678'') 0)) = ascii ''Not Found''
     \<and> success (fst (trackBoxNow ?B (ascii ''BN12345678'') 0)) = True"
    by simp
  from l e b show ?thesis by simp
qed

lemma invariant_no_events:
  "events r = [] \<Longrightarrow> result_invariant r"
  by (cases "statusCategory r") (simp_all add: result_invariant_def)

lemma category_cases: "c \<in> {delivered, in_transit, created, unknown, error}"
  by (cases c) simp_all

lemma first_event:
  "xs \<noteq> [] \<Longrightarrow> (case xs of [] \<Rightarrow> None | e # _ \<Rightarrow> Some e) = Some (xs ! 0)"
  by (cases xs) simp_all

lemma elta_found_invariant: "result_invariant (elta_found E tn trackingData)"
  unfolding result_invariant_def
proof (intro conjI impI)
  assume "events (elta_found E tn trackingData) \<noteq> []"
  thus "latestEvent (elta_found E tn trackingData) = Some (events (elta_found E tn trackingData) ! 0)"
    by (simp add: elta_found_def Let_def first_event)
next
  show "statusCategory (elta_found E tn trackingData) \<in> {delivered, in_transit, created, unknown, error}"
    by (rule category_cases)
qed

lemma boxnow_found_invariant: "result_invariant (boxnow_found E tn parcel)"
  unfolding result_invariant_def
proof (intro conjI impI)
  assume "events (boxnow_found E tn parcel) \<noteq> []"
  thus "latestEvent (boxnow_found E tn parcel) = Some (events (boxnow_found E tn parcel) ! 0)"
    by (simp add: boxnow_found_def Let_def first_event)
next
  show "statusCategory (boxnow_found E tn parcel) \<in> {delivered, in_transit, created, unknown, error}"
    by (rule category_cases)
qed

lemma elta_body_invariant: "result_invariant (elta_body E tn data)"
  by (simp add: elta_body_def elta_found_invariant invariant_no_events not_found_result_fields
        split: option.split)

lemma boxnow_body_invariant: "result_invariant (boxnow_body E tn data)"
  by (simp add: boxnow_body_def boxnow_found_invariant invariant_no_events
        not_found_result_fields split: option.split list.split)

lemma trackELTA_invariant: "result_invariant (fst (trackELTA E tn w))"
  by (simp add: trackELTA_fst elta_body_invariant invariant_no_events catch_result_fields
        split: sum.split)

lemma trackBoxNow_invariant: "result_invariant (fst (trackBoxNow E tn w))"
  by (simp add: trackBoxNow_fst boxnow_body_invariant invariant_no_events catch_result_fields
        split: sum.split)

lemma trackShipment_invariant: "result_invariant (fst (trackShipment E tn w))"
  by (simp add: trackShipment_def trackELTA_invariant trackBoxNow_invariant invariant_no_events
        not_detected_result_def not_implemented_result_def split: option.split)

lemma trackAll_invariant: "r \<in> set (fst (trackAll E ns w)) \<Longrightarrow> result_invariant r"
proof (induction ns arbitrary: w)
  case Nil
  then show ?case by (simp add: trackAll_Nil)
next
  case (Cons n ns)
  from Cons.prems have "r \<in> set (fst (trackAll E [n] w))
      \<or> r \<in> set (fst (trackAll E ns (snd (trackAll E [n] w))))"
    by (simp add: trackAll_Cons[of E n ns w])
  thus ?case
  proof
    assume "r \<in> set (fst (trackAll E [n] w))"
    thus ?thesis
      by (simp add: trackAll_single trackShipment_invariant invariant_no_events invalid_result_def
            split: if_splits)
  next
    assume "r \<in> set (fst (trackAll E ns (snd (trackAll E [n] w))))"
    thus ?thesis by (rule Cons.IH)
  qed
qed

text \<open>
  Claim C8. Every result produced by a fetcher, by the dispatcher, by the batch
  orchestrator or in the answer of a handler satisfies the invariant: when its events
  are not empty, \<open>latestEvent\<close> is present and is the first of them, and its category is
  one of the five enumerated values.
\<close>

theorem results_satisfy_invariant:
  "result_invariant (fst (trackELTA E tn w))
   \<and> result_invariant (fst (trackBoxNow E tn w))
   \<and> result_invariant (fst (trackShipment E tn w))
   \<and> (\<forall>r\<in>set (fst (trackAll E ns w)). result_invariant r)
   \<and> (\<forall>rs. fst (POST E body w) = Results rs \<longrightarrow> (\<forall>r\<in>set rs. result_invariant r))
   \<and> (\<forall>r. fst (GET E number w) = Result r \<longrightarrow> result_invariant r)"
proof (intro conjI allI impI ballI)
  show "result_invariant (fst (trackELTA E tn w))" by (rule trackELTA_invariant)
  show "result_invariant (fst (trackBoxNow E tn w))" by (rule trackBoxNow_invariant)
  show "result_invariant (fst (trackShipment E tn w))" by (rule trackShipment_invariant)
next
  fix r assume "r \<in> set (fst (trackAll E ns w))"
  thus "result_invariant r" by (rule trackAll_invariant)
next
  fix rs r assume p: "fst (POST E body w) = Results rs" and r: "r \<in> set rs"
  from p have "\<exists>numbers. rs = fst (trackAll E numbers w)"
    by (auto simp: POST_def split: option.splits list.splits prod.splits) (metis fst_conv)
  with r show "result_invariant r" by (auto simp: trackAll_invariant)
next
  fix r assume "fst (GET E number w) = Result r"
  hence "\<exists>t. r = fst (trackShipment E t w)"
    by (auto simp: GET_def split: option.splits if_splits prod.splits) (metis fst_conv)
  thus "result_invariant r" by (auto simp: trackShipment_invariant)
qed


lemma sample_elta_events:
  "events (fst (trackELTA sample_runtime (ascii ''SE101046219GR'') 0)) = [sample_event]"
proof -
  have "elta_lookup \<lparr>d_status = Some 1,
          d_result = Some [(ascii ''SE101046219GR'',
                            \<lparr>s_status = Some 1, s_result = Some [sample_event]\<rparr>)]\<rparr>
          (ascii ''SE101046219GR'')
        = Some \<lparr>s_status = Some 1, s_result = Some [sample_event]\<rparr>"
    by (simp add: elta_lookup_def)
  thus ?thesis
    by (simp add: trackELTA_fst sample_elta_parse elta_body_def elta_found_def Let_def)
qed

theorem results_satisfy_invariant_witness:
  "events (fst (trackELTA sample_runtime (ascii ''SE101046219GR'') 0)) = [sample_event]
   \<and> latestEvent (fst (trackELTA sample_runtime (ascii ''SE101046219GR'') 0)) = Some sample_event
   \<and> result_invariant (fst (trackELTA sample_runtime (ascii ''SE101046219GR'') 0))"
proof -
  from results_satisfy_invariant [of sample_runtime "ascii ''SE101046219GR''" 0]
  have i: "result_invariant (fst (trackELTA sample_runtime (ascii ''SE101046219GR'') 0))"
    by (rule conjunct1)
  with sample_elta_events
  have "latestEvent (fst (trackELTA sample_runtime (ascii ''SE101046219GR'') 0)) = Some sample_event"
    by (simp add: result_invariant_def)
  with i sample_elta_events show ?thesis by simp
qed

end
